theory Spec2Isabelle
  imports Complex_Main
begin

section \<open>JavaScript numbers\<close>

text \<open>
  A JavaScript number is modelled as a real number or one of the three special values
  of IEEE arithmetic. Rounding and the sign of zero are not modelled: the code only
  subtracts, compares, divides and multiplies. The fields of the
  scroll state that are always finite (offsets read from the window, their
  differences) are plain \<open>real\<close>; the results of division, of \<open>parseFloat\<close>
  and of the conversion of a string to a number are \<open>number\<close>.
\<close>

datatype number = Fin real | PosInf | NegInf | NaN

fun truthy :: "number \<Rightarrow> bool" where
  "truthy (Fin x) = (x \<noteq> 0)"
| "truthy NaN = False"
| "truthy PosInf = True"
| "truthy NegInf = True"

definition signed_inf :: "real \<Rightarrow> number" where
  "signed_inf s = (if s = 0 then NaN else if 0 < s then PosInf else NegInf)"

text \<open>\<open>a / b\<close> on finite operands: a zero divisor gives an infinity or NaN.\<close>

definition js_div :: "real \<Rightarrow> real \<Rightarrow> number" where
  "js_div a b = (if b \<noteq> 0 then Fin (a / b) else signed_inf a)"

fun js_mul :: "number \<Rightarrow> number \<Rightarrow> number" where
  "js_mul NaN y = NaN"
| "js_mul x NaN = NaN"
| "js_mul (Fin a) (Fin b) = Fin (a * b)"
| "js_mul (Fin a) PosInf = signed_inf a"
| "js_mul (Fin a) NegInf = signed_inf (- a)"
| "js_mul PosInf (Fin b) = signed_inf b"
| "js_mul NegInf (Fin b) = signed_inf (- b)"
| "js_mul PosInf PosInf = PosInf"
| "js_mul NegInf NegInf = PosInf"
| "js_mul PosInf NegInf = NegInf"
| "js_mul NegInf PosInf = NegInf"

fun js_sub :: "number \<Rightarrow> number \<Rightarrow> number" where
  "js_sub NaN y = NaN"
| "js_sub x NaN = NaN"
| "js_sub (Fin a) (Fin b) = Fin (a - b)"
| "js_sub (Fin a) PosInf = NegInf"
| "js_sub (Fin a) NegInf = PosInf"
| "js_sub PosInf PosInf = NaN"
| "js_sub NegInf NegInf = NaN"
| "js_sub PosInf y = PosInf"
| "js_sub NegInf y = NegInf"

text \<open>\<open>x >= y\<close>: false as soon as one side is NaN.\<close>

fun js_ge :: "number \<Rightarrow> number \<Rightarrow> bool" where
  "js_ge NaN y = False"
| "js_ge x NaN = False"
| "js_ge (Fin a) (Fin b) = (b \<le> a)"
| "js_ge PosInf y = True"
| "js_ge x NegInf = True"
| "js_ge (Fin a) PosInf = False"
| "js_ge NegInf y = False"

section \<open>The document\<close>

text \<open>
  Elements are objects with identity: several collections of the scroll manager may
  hold the same element, and every handler mutates elements in place. The document is
  therefore a store from nodes to elements, and a collection (a \<open>NodeList\<close>) is
  a list of nodes. An element carries what the scripts read and write: its id, its
  \<open>href\<close> attribute (\<open>None\<close> when \<open>getAttribute\<close> returns null), its class list,
  its inline style (a property that is not set reads as the empty string), its
  \<open>data-*\<close> attributes by their \<open>dataset\<close> key, and its parent element, which is
  null for the root element and for an element that is not in a tree. A write to a
  style property stores the string written; that a browser drops a value which is not
  valid CSS is not modelled (the values the scripts write are literals, or a number
  followed by \<open>px\<close>).
\<close>

type_synonym node = nat

record element =
  ident :: string
  href :: "string option"
  classList :: "string list"
  style :: "string \<Rightarrow> string"
  dataset :: "string \<Rightarrow> string option"
  parentElement :: "node option"

type_synonym dom = "node \<Rightarrow> element"

text \<open>The token list operations \<open>add\<close>, \<open>remove\<close>, \<open>contains\<close> and \<open>toggle\<close>.\<close>

definition classList_contains :: "string \<Rightarrow> string list \<Rightarrow> bool" where
  "classList_contains c cs = (c \<in> set cs)"

definition classList_add :: "string \<Rightarrow> string list \<Rightarrow> string list" where
  "classList_add c cs = (if c \<in> set cs then cs else cs @ [c])"

definition classList_remove :: "string \<Rightarrow> string list \<Rightarrow> string list" where
  "classList_remove c cs = removeAll c cs"

definition classList_toggle :: "string \<Rightarrow> string list \<Rightarrow> string list" where
  "classList_toggle c cs = (if c \<in> set cs then classList_remove c cs else classList_add c cs)"

text \<open>Writes to one element of the store.\<close>

definition set_style :: "node \<Rightarrow> string \<Rightarrow> string \<Rightarrow> dom \<Rightarrow> dom" where
  "set_style el prop v d = d(el := (d el)\<lparr>style := (style (d el))(prop := v)\<rparr>)"

definition set_classList :: "node \<Rightarrow> (string list \<Rightarrow> string list) \<Rightarrow> dom \<Rightarrow> dom" where
  "set_classList el f d = d(el := (d el)\<lparr>classList := f (classList (d el))\<rparr>)"

definition set_dataset :: "node \<Rightarrow> string \<Rightarrow> string \<Rightarrow> dom \<Rightarrow> dom" where
  "set_dataset el key v d = d(el := (d el)\<lparr>dataset := (dataset (d el))(key \<mapsto> v)\<rparr>)"

text \<open>
  The tree of the page is the list of its elements in document order, and the node of
  \<open>document.body\<close>. \<open>querySelectorAll('[data-k]')\<close> selects the elements that carry
  the attribute, in document order; \<open>querySelector('.c')\<close> the first element of
  class \<open>c\<close>, or null.
\<close>

record document =
  elements :: "node list"
  body :: node

definition querySelectorAll :: "document \<Rightarrow> dom \<Rightarrow> string \<Rightarrow> node list" where
  "querySelectorAll doc d key = filter (\<lambda>n. dataset (d n) key \<noteq> None) (elements doc)"

definition querySelector :: "document \<Rightarrow> dom \<Rightarrow> string \<Rightarrow> node option" where
  "querySelector doc d c = find (\<lambda>n. c \<in> set (classList (d n))) (elements doc)"

section \<open>The browser\<close>

text \<open>
  What the scripts ask of the browser and do not compute themselves is a parameter of
  the model: the conversions between strings and numbers (\<open>parseFloat\<close>, the
  conversion of a string operand of \<open>-\<close> to a number, the conversion of a number to
  a string in a concatenation), and the layout (\<open>getBoundingClientRect\<close>,
  \<open>offsetTop\<close>, \<open>offsetWidth\<close>), which is a function of the document as it is at
  the moment of the read, so that a read after a write sees the write. The theorems
  hold for every browser.
\<close>

record rect =
  rect_top :: real
  rect_bottom :: real

record browser =
  parseFloat :: "string \<Rightarrow> number"
  ToNumber :: "string \<Rightarrow> number"
  ToString :: "number \<Rightarrow> string"
  getBoundingClientRect :: "dom \<Rightarrow> node \<Rightarrow> rect"
  offsetTop :: "dom \<Rightarrow> node \<Rightarrow> int"
  offsetWidth :: "dom \<Rightarrow> node \<Rightarrow> int"

text \<open>The window, as it is when an event is handled.\<close>

record window =
  scrollY :: real
  pageYOffset :: real
  innerHeight :: real
  scrollHeight :: real

section \<open>ScrollManager (assets/js/scroll.js)\<close>

record scroll_state =
  isScrolling :: bool
  scrollPosition :: real
  maxScroll :: real
  direction :: string
  lastScrollTop :: real
  scrollVelocity :: real
  isAtTop :: bool
  isAtBottom :: bool
  scrollPercent :: number

text \<open>
  The manager object: its state and the collections that \<open>initScrollEffects\<close>
  stores on it. The collections do not exist before \<open>init\<close>; no listener runs before
  \<open>init\<close> has set them, and the object literal is modelled with empty ones.
\<close>

record manager =
  state :: scroll_state
  parallaxElements :: "node list"
  revealElements :: "node list"
  scrollSpyTargets :: "node list"
  scrollSpyNavs :: "node list"
  hideOnScrollElements :: "node list"
  stickyElements :: "node list"

definition ScrollManager :: manager where
  "ScrollManager =
     \<lparr>state = \<lparr>isScrolling = False, scrollPosition = 0, maxScroll = 0, direction = ''down'',
               lastScrollTop = 0, scrollVelocity = 0, isAtTop = True, isAtBottom = False,
               scrollPercent = Fin 0\<rparr>,
      parallaxElements = [], revealElements = [], scrollSpyTargets = [], scrollSpyNavs = [],
      hideOnScrollElements = [], stickyElements = []\<rparr>"

subsection \<open>config\<close>

definition parallaxFactor :: real where "parallaxFactor = 0.5"
definition revealThreshold :: real where "revealThreshold = 0.15"
definition hideNavbarThreshold :: real where "hideNavbarThreshold = 100"
definition scrollSpyOffset :: real where "scrollSpyOffset = 70"
definition smoothScrollDuration :: real where "smoothScrollDuration = 800"

subsection \<open>Parallax\<close>

definition initParallax :: "document \<Rightarrow> manager \<Rightarrow> dom \<Rightarrow> manager \<times> dom" where
  "initParallax doc m d =
     (let els = querySelectorAll doc d ''parallax''
      in (m\<lparr>parallaxElements := els\<rparr>,
          fold (\<lambda>el. set_style el ''willChange'' ''transform'') els d))"

text \<open>\<open>parseFloat(el.dataset.parallax) || this.config.parallaxFactor\<close>: an absent
  attribute reads as undefined, which \<open>parseFloat\<close> turns into NaN.\<close>

definition parallax_factor :: "browser \<Rightarrow> element \<Rightarrow> number" where
  "parallax_factor B e =
     (let f = (case dataset e ''parallax'' of None \<Rightarrow> NaN | Some s \<Rightarrow> parseFloat B s)
      in if truthy f then f else Fin parallaxFactor)"

definition parallax_each :: "browser \<Rightarrow> window \<Rightarrow> node \<Rightarrow> dom \<Rightarrow> dom" where
  "parallax_each B w el d =
     (let factor = parallax_factor B (d el);
          yOffset = js_mul (Fin (scrollY w)) factor
      in set_style el ''transform'' (''translateY('' @ ToString B yOffset @ ''px)'') d)"

definition updateParallax :: "browser \<Rightarrow> window \<Rightarrow> manager \<Rightarrow> dom \<Rightarrow> dom" where
  "updateParallax B w m d = fold (parallax_each B w) (parallaxElements m) d"

subsection \<open>Scroll reveal\<close>

definition initScrollReveal :: "document \<Rightarrow> manager \<Rightarrow> dom \<Rightarrow> manager \<times> dom" where
  "initScrollReveal doc m d =
     (let els = querySelectorAll doc d ''reveal''
      in (m\<lparr>revealElements := els\<rparr>,
          fold (\<lambda>el d. set_style el ''transition'' ''opacity 0.6s ease, transform 0.6s ease''
                         (set_style el ''transform'' ''translateY(30px)''
                           (set_style el ''opacity'' ''0'' d))) els d))"

definition reveal_each :: "browser \<Rightarrow> window \<Rightarrow> node \<Rightarrow> dom \<Rightarrow> dom" where
  "reveal_each B w el d =
     (let elementTop = rect_top (getBoundingClientRect B d el);
          elementBottom = rect_bottom (getBoundingClientRect B d el);
          isVisible = (elementTop < innerHeight w - innerHeight w * revealThreshold
                       \<and> elementBottom > 0)
      in if isVisible
         then set_classList el (classList_add ''revealed'')
                (set_style el ''transform'' ''translateY(0)''
                  (set_style el ''opacity'' ''1'' d))
         else d)"

definition updateScrollReveal :: "browser \<Rightarrow> window \<Rightarrow> manager \<Rightarrow> dom \<Rightarrow> dom" where
  "updateScrollReveal B w m d = fold (reveal_each B w) (revealElements m) d"

subsection \<open>Scroll spy\<close>

definition initScrollSpy :: "document \<Rightarrow> manager \<Rightarrow> dom \<Rightarrow> manager" where
  "initScrollSpy doc m d =
     m\<lparr>scrollSpyTargets := querySelectorAll doc d ''scrollSpy'',
       scrollSpyNavs := querySelectorAll doc d ''scrollNav''\<rparr>"

text \<open>The test of the first loop: the probe point lies in the section's box.\<close>

definition spy_hit :: "browser \<Rightarrow> dom \<Rightarrow> node \<Rightarrow> bool" where
  "spy_hit B d target =
     (let r = getBoundingClientRect B d target
      in rect_top r \<le> scrollSpyOffset \<and> rect_bottom r > scrollSpyOffset)"

definition spy_target :: "browser \<Rightarrow> dom \<Rightarrow> node \<Rightarrow> string option \<Rightarrow> string option" where
  "spy_target B d target activeTarget =
     (if spy_hit B d target then Some (ident (d target)) else activeTarget)"

definition spy_nav :: "string \<Rightarrow> node \<Rightarrow> dom \<Rightarrow> dom" where
  "spy_nav activeTarget nav d =
     (let d1 = set_classList nav (classList_remove ''active'') d
      in if href (d1 nav) = Some (''#'' @ activeTarget)
         then set_classList nav (classList_add ''active'') d1
         else d1)"

text \<open>\<open>if (activeTarget)\<close> is false for null and for the empty string, the id of an
  element that has none.\<close>

definition updateScrollSpy :: "browser \<Rightarrow> manager \<Rightarrow> dom \<Rightarrow> dom" where
  "updateScrollSpy B m d =
     (case fold (spy_target B d) (scrollSpyTargets m) None of
        None \<Rightarrow> d
      | Some activeTarget \<Rightarrow>
          if activeTarget = [] then d
          else fold (spy_nav activeTarget) (scrollSpyNavs m) d)"

subsection \<open>Hide on scroll\<close>

definition initHideOnScroll :: "document \<Rightarrow> manager \<Rightarrow> dom \<Rightarrow> manager" where
  "initHideOnScroll doc m d = m\<lparr>hideOnScrollElements := querySelectorAll doc d ''hideOnScroll''\<rparr>"

definition hide_each :: "bool \<Rightarrow> node \<Rightarrow> dom \<Rightarrow> dom" where
  "hide_each shouldHide el d =
     (if shouldHide
      then set_style el ''pointerEvents'' ''none''
             (set_style el ''opacity'' ''0''
               (set_style el ''transform'' ''translateY(-100%)'' d))
      else set_style el ''pointerEvents'' ''auto''
             (set_style el ''opacity'' ''1''
               (set_style el ''transform'' ''translateY(0)'' d)))"

definition updateHideOnScroll :: "manager \<Rightarrow> dom \<Rightarrow> dom" where
  "updateHideOnScroll m d =
     (let shouldHide = (direction (state m) = ''down''
                        \<and> scrollPosition (state m) > hideNavbarThreshold)
      in fold (hide_each shouldHide) (hideOnScrollElements m) d)"

subsection \<open>Sticky elements\<close>

text \<open>\<open>el.dataset.originalTop = el.offsetTop\<close> stores the number as a string.\<close>

definition sticky_init_each :: "browser \<Rightarrow> node \<Rightarrow> dom \<Rightarrow> dom" where
  "sticky_init_each B el d =
     set_dataset el ''originalTop'' (ToString B (Fin (of_int (offsetTop B d el)))) d"

definition initStickyElements :: "browser \<Rightarrow> document \<Rightarrow> manager \<Rightarrow> dom \<Rightarrow> manager \<times> dom" where
  "initStickyElements B doc m d =
     (let els = querySelectorAll doc d ''sticky''
      in (m\<lparr>stickyElements := els\<rparr>, fold (sticky_init_each B) els d))"

text \<open>
  \<open>el.dataset.offset || 0\<close> is the attribute's string when it is present and not
  empty, and the number 0 otherwise. As an operand of \<open>-\<close> it is converted to a
  number; in \<open>offsetTop + 'px'\<close> it is concatenated as it is (\<open>0 + 'px'\<close> is
  \<open>'0px'\<close>).
\<close>

definition sticky_originalTop :: "browser \<Rightarrow> element \<Rightarrow> number" where
  "sticky_originalTop B e =
     (case dataset e ''originalTop'' of None \<Rightarrow> NaN | Some s \<Rightarrow> parseFloat B s)"

definition sticky_offset_number :: "browser \<Rightarrow> element \<Rightarrow> number" where
  "sticky_offset_number B e =
     (case dataset e ''offset'' of
        None \<Rightarrow> Fin 0
      | Some s \<Rightarrow> if s = [] then Fin 0 else ToNumber B s)"

definition sticky_offset_px :: "element \<Rightarrow> string" where
  "sticky_offset_px e =
     (case dataset e ''offset'' of
        None \<Rightarrow> ''0px''
      | Some s \<Rightarrow> if s = [] then ''0px'' else s @ ''px'')"

definition sticky_cond :: "browser \<Rightarrow> manager \<Rightarrow> element \<Rightarrow> bool" where
  "sticky_cond B m e =
     js_ge (Fin (scrollPosition (state m)))
           (js_sub (sticky_originalTop B e) (sticky_offset_number B e))"

text \<open>
  A handler that throws leaves the writes it has made. The only expression of the
  scroll effects that can throw is \<open>el.parentElement.offsetWidth\<close>, a TypeError when
  the parent is null; it is reached after the position and the top have been written.
\<close>

datatype error = TypeError

definition sticky_each :: "browser \<Rightarrow> manager \<Rightarrow> node \<Rightarrow> dom \<Rightarrow> error option \<times> dom" where
  "sticky_each B m el d =
     (if sticky_cond B m (d el)
      then (let d1 = set_style el ''position'' ''fixed'' d;
                d2 = set_style el ''top'' (sticky_offset_px (d el)) d1
            in case parentElement (d2 el) of
                 None \<Rightarrow> (Some TypeError, d2)
               | Some p \<Rightarrow>
                   (None,
                    set_classList el (classList_add ''sticky-active'')
                      (set_style el ''zIndex'' ''100''
                        (set_style el ''width''
                           (ToString B (Fin (of_int (offsetWidth B d2 p))) @ ''px'') d2))))
      else (None,
            set_classList el (classList_remove ''sticky-active'')
              (set_style el ''top'' ''0''
                (set_style el ''position'' ''relative'' d))))"

text \<open>\<open>forEach\<close> with a callback that may throw: the first throw ends the loop.\<close>

fun sticky_forEach :: "browser \<Rightarrow> manager \<Rightarrow> node list \<Rightarrow> dom \<Rightarrow> error option \<times> dom" where
  "sticky_forEach B m [] d = (None, d)"
| "sticky_forEach B m (el # els) d =
     (case sticky_each B m el d of
        (Some e, d') \<Rightarrow> (Some e, d')
      | (None, d') \<Rightarrow> sticky_forEach B m els d')"

definition updateStickyElements :: "browser \<Rightarrow> manager \<Rightarrow> dom \<Rightarrow> error option \<times> dom" where
  "updateStickyElements B m d = sticky_forEach B m (stickyElements m) d"

subsection \<open>The scroll handler\<close>

definition initScrollEffects :: "browser \<Rightarrow> document \<Rightarrow> manager \<Rightarrow> dom \<Rightarrow> manager \<times> dom" where
  "initScrollEffects B doc m d =
     (let (m1, d1) = initParallax doc m d;
          (m2, d2) = initScrollReveal doc m1 d1;
          m3 = initScrollSpy doc m2 d2;
          m4 = initHideOnScroll doc m3 d2
      in initStickyElements B doc m4 d2)"

definition triggerScrollEffects :: "browser \<Rightarrow> window \<Rightarrow> manager \<Rightarrow> dom \<Rightarrow> error option \<times> dom" where
  "triggerScrollEffects B w m d =
     updateStickyElements B m
       (updateHideOnScroll m
         (updateScrollSpy B m
           (updateScrollReveal B w m
             (updateParallax B w m d))))"

text \<open>
  \<open>handleScroll\<close> writes the state before it triggers the effects, so the state it
  leaves is the same whether or not an effect throws. It returns the manager, the
  error thrown (if any) and the document.
\<close>

definition handleScroll :: "browser \<Rightarrow> window \<Rightarrow> manager \<Rightarrow> dom \<Rightarrow> manager \<times> error option \<times> dom" where
  "handleScroll B w m d =
     (let currentScroll = (if scrollY w \<noteq> 0 then scrollY w else pageYOffset w);
          s = state m;
          s1 = (if currentScroll > lastScrollTop s then s\<lparr>direction := ''down''\<rparr>
                else if currentScroll < lastScrollTop s then s\<lparr>direction := ''up''\<rparr>
                else s);
          s2 = s1\<lparr>scrollVelocity := currentScroll - lastScrollTop s1\<rparr>;
          s3 = s2\<lparr>lastScrollTop := currentScroll\<rparr>;
          s4 = s3\<lparr>scrollPosition := currentScroll\<rparr>;
          s5 = s4\<lparr>isAtTop := (currentScroll \<le> 0)\<rparr>;
          s6 = s5\<lparr>isAtBottom := (currentScroll \<ge> maxScroll s5 - innerHeight w)\<rparr>;
          s7 = s6\<lparr>scrollPercent := js_mul (js_div currentScroll (maxScroll s6)) (Fin 100)\<rparr>;
          m' = m\<lparr>state := s7\<rparr>
      in (m', triggerScrollEffects B w m' d))"

definition handleWheel :: "real \<Rightarrow> manager \<Rightarrow> manager" where
  "handleWheel deltaY m =
     (if deltaY > 0 then m\<lparr>state := (state m)\<lparr>direction := ''down''\<rparr>\<rparr>
      else if deltaY < 0 then m\<lparr>state := (state m)\<lparr>direction := ''up''\<rparr>\<rparr>
      else m)"

text \<open>\<open>handleTouchMove\<close> sets the flag and arms a timer of 150 ms; the timer's
  callback, when it fires, clears the flag.\<close>

definition handleTouchMove :: "manager \<Rightarrow> manager" where
  "handleTouchMove m = m\<lparr>state := (state m)\<lparr>isScrolling := True\<rparr>\<rparr>"

definition touchTimeout :: "manager \<Rightarrow> manager" where
  "touchTimeout m = m\<lparr>state := (state m)\<lparr>isScrolling := False\<rparr>\<rparr>"

definition updateScrollState :: "window \<Rightarrow> manager \<Rightarrow> manager" where
  "updateScrollState w m = m\<lparr>state := (state m)\<lparr>maxScroll := scrollHeight w - innerHeight w\<rparr>\<rparr>"

definition init :: "browser \<Rightarrow> document \<Rightarrow> window \<Rightarrow> manager \<Rightarrow> dom \<Rightarrow> manager \<times> dom" where
  "init B doc w m d = initScrollEffects B doc (updateScrollState w m) d"

text \<open>The scroll offset the window reports (\<open>getScrollPosition\<close> of main.js; the
  same expression is the first line of \<open>handleScroll\<close>).\<close>

definition getScrollPosition :: "window \<Rightarrow> real" where
  "getScrollPosition w = (if scrollY w \<noteq> 0 then scrollY w else pageYOffset w)"

subsection \<open>smoothScrollToElement\<close>

text \<open>
  With a null element the function returns at once. Otherwise it requests an animation
  frame for the closure \<open>animation\<close>, whose captured variables are the record below;
  each frame scrolls the window and, while the progress is below 1, requests the next.
\<close>

record animation =
  startPosition :: real
  distance :: real
  duration :: real
  start :: "real option"

definition smoothScrollToElement ::
  "browser \<Rightarrow> window \<Rightarrow> dom \<Rightarrow> node option \<Rightarrow> real \<Rightarrow> animation option" where
  "smoothScrollToElement B w d element offset =
     (case element of
        None \<Rightarrow> None
      | Some el \<Rightarrow>
          (let targetPosition = of_int (offsetTop B d el) - offset;
               startPosition' = scrollY w;
               distance' = targetPosition - startPosition'
           in Some \<lparr>startPosition = startPosition', distance = distance',
                     duration = smoothScrollDuration, start = None\<rparr>))"

text \<open>One frame: the offset given to \<open>window.scrollTo\<close> and the frame requested next.\<close>

definition animation_frame :: "animation \<Rightarrow> real \<Rightarrow> real \<times> animation option" where
  "animation_frame a currentTime =
     (let start' = (case start a of None \<Rightarrow> currentTime | Some t \<Rightarrow> t);
          elapsed = currentTime - start';
          progress = min (elapsed / duration a) 1;
          ease = (if progress < 0.5 then 2 * progress * progress
                  else - 1 + (4 - 2 * progress) * progress)
      in (startPosition a + distance a * ease,
          if progress < 1 then Some (a\<lparr>start := Some start'\<rparr>) else None))"

subsection \<open>Events\<close>

text \<open>
  The listeners of \<open>attachListeners\<close>, the call of \<open>init\<close> and the timer of
  \<open>handleTouchMove\<close>, as the events that change the manager. Every event comes with
  the browser, the window and the document as they are when it is handled.
\<close>

datatype event =
    Init browser document window dom
  | Scroll browser window dom
  | Wheel real
  | TouchMove
  | TouchTimeout
  | Resize window

fun dispatch :: "event \<Rightarrow> manager \<Rightarrow> manager" where
  "dispatch (Init B doc w d) m = fst (init B doc w m d)"
| "dispatch (Scroll B w d) m = fst (handleScroll B w m d)"
| "dispatch (Wheel deltaY) m = handleWheel deltaY m"
| "dispatch TouchMove m = handleTouchMove m"
| "dispatch TouchTimeout m = touchTimeout m"
| "dispatch (Resize w) m = updateScrollState w m"

text \<open>The managers after each event of a list, in order.\<close>

fun trace :: "event list \<Rightarrow> manager \<Rightarrow> manager list" where
  "trace [] m = []"
| "trace (e # es) m = dispatch e m # trace es (dispatch e m)"

definition scroll_events :: "(browser \<times> window \<times> dom) list \<Rightarrow> event list" where
  "scroll_events ws = map (\<lambda>(B, w, d). Scroll B w d) ws"

definition offsets :: "(browser \<times> window \<times> dom) list \<Rightarrow> real list" where
  "offsets ws = map (\<lambda>(B, w, d). getScrollPosition w) ws"

text \<open>The differences of consecutive offsets, the first one taken from \<open>prev\<close>.\<close>

fun deltas :: "real \<Rightarrow> real list \<Rightarrow> real list" where
  "deltas prev [] = []"
| "deltas prev (p # ps) = (p - prev) # deltas p ps"

text \<open>Scroll events handled one after the other on the same document: each handler
  starts from the document the previous one left (a throw ends a handler, not the page).\<close>

fun scroll_run :: "(browser \<times> window) list \<Rightarrow> manager \<Rightarrow> dom \<Rightarrow> manager \<times> dom" where
  "scroll_run [] m d = (m, d)"
| "scroll_run ((B, w) # es) m d =
     (case handleScroll B w m d of (m', err, d') \<Rightarrow> scroll_run es m' d')"

text \<open>The state that \<open>updateScrollReveal\<close> gives an element it reveals.\<close>

definition revealed :: "element \<Rightarrow> bool" where
  "revealed e = (''revealed'' \<in> set (classList e) \<and> style e ''opacity'' = ''1''
                 \<and> style e ''transform'' = ''translateY(0)'')"

section \<open>The hamburger menu (assets/js/navbar.js)\<close>

text \<open>
  The \<open>DOMContentLoaded\<close> listener looks the two elements up and, when both exist,
  registers the click listener, which keeps them in its closure.
\<close>

definition navbar_DOMContentLoaded :: "document \<Rightarrow> dom \<Rightarrow> (node \<times> node) option" where
  "navbar_DOMContentLoaded doc d =
     (case querySelector doc d ''hamburger'' of
        None \<Rightarrow> None
      | Some burger \<Rightarrow>
          (case querySelector doc d ''nav-menu'' of
             None \<Rightarrow> None
           | Some menu \<Rightarrow> Some (burger, menu)))"

definition burger_click :: "document \<Rightarrow> node \<times> node \<Rightarrow> dom \<Rightarrow> dom" where
  "burger_click doc bm d =
     (let burger = fst bm; menu = snd bm;
          d1 = set_classList burger (classList_toggle ''open'') d;
          d2 = set_classList menu (classList_toggle ''open'') d1
      in if classList_contains ''open'' (classList (d2 menu))
         then set_style (body doc) ''overflow'' ''hidden'' d2
         else set_style (body doc) ''overflow'' [] d2)"

section \<open>Form submission (main.js)\<close>

text \<open>
  The page as the submit handler sees it: the form with its controls' current and
  default values and the control that \<open>form.querySelector('[type="submit"]')\<close>
  finds (or null), the notifications appended to the body, the console, the requests
  issued, and whether the default action of the event has been prevented.
  \<open>DOM.body\<close> is taken to be the body element: main.js caches its elements when it
  is loaded and supposes throughout that the body exists by then.
\<close>

record button =
  disabled :: bool
  textContent :: string

record form =
  form_action :: string
  form_method :: string
  entries :: "(string \<times> string) list"
  defaults :: "(string \<times> string) list"
  submitBtn :: "button option"

record notification =
  className :: string
  role :: string
  message :: string
  background :: string

record request =
  url :: string
  request_method :: string
  request_body :: "(string \<times> string) list"

record page =
  form :: form
  notifications :: "notification list"
  console :: "string list"
  requests :: "request list"
  defaultPrevented :: bool

text \<open>\<open>showNotification\<close> appends the element to the body; the timer that removes
  it four seconds later is not part of the model.\<close>

definition showNotification :: "string \<Rightarrow> string \<Rightarrow> page \<Rightarrow> page" where
  "showNotification msg type p =
     p\<lparr>notifications := notifications p @
         [\<lparr>className = ''notification notification--'' @ type,
           role = ''alert'',
           message = msg,
           background = (if type = ''success'' then ''#10b981''
                         else if type = ''error'' then ''#ef4444'' else ''#3b82f6'')\<rparr>]\<rparr>"

definition form_reset :: "page \<Rightarrow> page" where
  "form_reset p = p\<lparr>form := (form p)\<lparr>entries := defaults (form p)\<rparr>\<rparr>"

text \<open>The outcome of \<open>await fetch(...)\<close>: a response with its status, or a throw.
  \<open>response.ok\<close> is true for the statuses 200 to 299.\<close>

datatype fetch_outcome = Resolved nat | Rejected

definition response_ok :: "nat \<Rightarrow> bool" where
  "response_ok status = (200 \<le> status \<and> status \<le> 299)"

text \<open>
  \<open>handleFormSubmit\<close> is asynchronous. Its first part runs up to the \<open>await\<close>: it
  returns the page and, unless it returned early, the variable the rest of the function
  keeps (\<open>originalText\<close>). Its second part runs when the request has settled, on the
  page as it is then.
\<close>

definition handleFormSubmit_begin :: "page \<Rightarrow> page \<times> string option" where
  "handleFormSubmit_begin p =
     (let p0 = p\<lparr>defaultPrevented := True\<rparr>;
          formData = entries (form p0)
      in case submitBtn (form p0) of
           None \<Rightarrow> (p0, None)
         | Some b \<Rightarrow>
             (let originalText = textContent b;
                  b1 = b\<lparr>disabled := True\<rparr>;
                  b2 = b1\<lparr>textContent := ''Sending...''\<rparr>;
                  p1 = p0\<lparr>form := (form p0)\<lparr>submitBtn := Some b2\<rparr>\<rparr>
              in (p1\<lparr>requests := requests p1 @
                        [\<lparr>url = form_action (form p1), request_method = form_method (form p1),
                          request_body = formData\<rparr>]\<rparr>,
                  Some originalText)))"

definition handleFormSubmit_resume :: "string \<Rightarrow> fetch_outcome \<Rightarrow> page \<Rightarrow> page" where
  "handleFormSubmit_resume originalText outcome p =
     (let p1 = (case outcome of
                  Resolved status \<Rightarrow>
                    if response_ok status
                    then form_reset (showNotification ''Message sent successfully!'' ''success'' p)
                    else showNotification ''Failed to send message. Please try again.'' ''error'' p
                | Rejected \<Rightarrow>
                    showNotification ''An error occurred. Please try again later.'' ''error''
                      (p\<lparr>console := console p @ [''Form submission error:'']\<rparr>))
      in p1\<lparr>form := (form p1)\<lparr>submitBtn :=
               map_option (\<lambda>b. b\<lparr>disabled := False, textContent := originalText\<rparr>)
                 (submitBtn (form p1))\<rparr>\<rparr>)"

text \<open>The whole submission when nothing else touches the page while the request is
  pending.\<close>

definition handleFormSubmit :: "fetch_outcome \<Rightarrow> page \<Rightarrow> page" where
  "handleFormSubmit outcome p =
     (case handleFormSubmit_begin p of
        (p1, None) \<Rightarrow> p1
      | (p1, Some originalText) \<Rightarrow> handleFormSubmit_resume originalText outcome p1)"

section \<open>Notions used in the statements\<close>

text \<open>What \<open>updateScrollSpy\<close> does to a navigation link it visits, for the active id
  \<open>a\<close>: \<open>active\<close> is removed, and added again when the link's href is \<open>#a\<close>.\<close>

definition nav_mark :: "string \<Rightarrow> element \<Rightarrow> element" where
  "nav_mark a e =
     (if href e = Some (''#'' @ a)
      then e\<lparr>classList := classList_add ''active'' (classList_remove ''active'' (classList e))\<rparr>
      else e\<lparr>classList := classList_remove ''active'' (classList e)\<rparr>)"

text \<open>The two states of a sticky element \<open>e\<close> after an update, \<open>e'\<close> being the
  element after it.\<close>

definition sticky_post :: "browser \<Rightarrow> manager \<Rightarrow> element \<Rightarrow> element \<Rightarrow> bool" where
  "sticky_post B m e e' =
     (if sticky_cond B m e
      then style e' ''position'' = ''fixed'' \<and> style e' ''top'' = sticky_offset_px e
           \<and> ''sticky-active'' \<in> set (classList e')
      else style e' ''position'' = ''relative'' \<and> style e' ''top'' = ''0''
           \<and> ''sticky-active'' \<notin> set (classList e'))"

text \<open>An element that carries none of the attributes the scroll effects select.\<close>

definition unmarked :: "element \<Rightarrow> bool" where
  "unmarked e = (dataset e ''parallax'' = None \<and> dataset e ''reveal'' = None
                 \<and> dataset e ''scrollSpy'' = None \<and> dataset e ''scrollNav'' = None
                 \<and> dataset e ''hideOnScroll'' = None \<and> dataset e ''sticky'' = None)"

text \<open>Whether a settled request counts as a success, and the notification that the
  submit handler shows for each outcome.\<close>

definition outcome_ok :: "fetch_outcome \<Rightarrow> bool" where
  "outcome_ok outcome =
     (case outcome of Resolved status \<Rightarrow> response_ok status | Rejected \<Rightarrow> False)"

definition toast :: "fetch_outcome \<Rightarrow> notification" where
  "toast outcome =
     (case outcome of
        Resolved status \<Rightarrow>
          if 200 \<le> status \<and> status \<le> 299
          then \<lparr>className = ''notification notification--success'', role = ''alert'',
                message = ''Message sent successfully!'', background = ''#10b981''\<rparr>
          else \<lparr>className = ''notification notification--error'', role = ''alert'',
                message = ''Failed to send message. Please try again.'',
                background = ''#ef4444''\<rparr>
      | Rejected \<Rightarrow>
          \<lparr>className = ''notification notification--error'', role = ''alert'',
            message = ''An error occurred. Please try again later.'',
            background = ''#ef4444''\<rparr>)"

section \<open>Sample pages\<close>

text \<open>
  Concrete pages on which the theorems are instantiated. The sample browser reports
  the box \<open>t\<close> to \<open>b\<close> for node 1 and an empty box at 0 for every other node, an
  offset top of 120 for node 2, a width of 960 for every node, and converts the
  few strings and numbers that occur on these pages.
\<close>

definition blank :: element where
  "blank = \<lparr>ident = [], href = None, classList = [], style = (\<lambda>p. []),
            dataset = (\<lambda>k. None), parentElement = None\<rparr>"

definition sample_browser :: "real \<Rightarrow> real \<Rightarrow> browser" where
  "sample_browser t b =
     \<lparr>parseFloat = (\<lambda>s. if s = ''120'' then Fin 120 else if s = ''0'' then Fin 0 else NaN),
      ToNumber = (\<lambda>s. if s = ''70'' then Fin 70 else NaN),
      ToString = (\<lambda>x. if x = Fin 120 then ''120'' else if x = Fin 960 then ''960'' else ''0''),
      getBoundingClientRect =
        (\<lambda>d n. if n = 1 then \<lparr>rect_top = t, rect_bottom = b\<rparr>
               else \<lparr>rect_top = 0, rect_bottom = 0\<rparr>),
      offsetTop = (\<lambda>d n. if n = 2 then 120 else 0),
      offsetWidth = (\<lambda>d n. 960)\<rparr>"

definition at_offset :: "real \<Rightarrow> window" where
  "at_offset y = \<lparr>scrollY = y, pageYOffset = y, innerHeight = 800, scrollHeight = 2000\<rparr>"

definition plain_page :: dom where
  "plain_page = (\<lambda>n. blank)"

text \<open>A section \<open>about\<close> (node 1) and three links: to it (node 2), to another
  section (node 3, marked active), and a second link to \<open>about\<close> (node 4).\<close>

definition spy_page :: dom where
  "spy_page = (\<lambda>n. blank)
     (1 := blank\<lparr>ident := ''about'', dataset := [''scrollSpy'' \<mapsto> []]\<rparr>,
      2 := blank\<lparr>href := Some ''#about'', dataset := [''scrollNav'' \<mapsto> []]\<rparr>,
      3 := blank\<lparr>href := Some ''#work'', classList := [''nav-link'', ''active''],
                   dataset := [''scrollNav'' \<mapsto> []]\<rparr>,
      4 := blank\<lparr>href := Some ''#about'', dataset := [''scrollNav'' \<mapsto> []]\<rparr>)"

definition spy_manager :: "node list \<Rightarrow> manager" where
  "spy_manager navs = ScrollManager\<lparr>scrollSpyTargets := [1], scrollSpyNavs := navs\<rparr>"

text \<open>A navigation bar (node 1) that is both revealed on scroll and hidden on scroll,
  as \<open>initScrollReveal\<close> leaves it.\<close>

definition nav_page :: dom where
  "nav_page = (\<lambda>n. blank)
     (1 := blank\<lparr>dataset := [''reveal'' \<mapsto> [], ''hideOnScroll'' \<mapsto> []],
                   style := (\<lambda>p. [])(''opacity'' := ''0'', ''transform'' := ''translateY(30px)'')\<rparr>)"

definition nav_manager :: manager where
  "nav_manager = ScrollManager\<lparr>revealElements := [1], hideOnScrollElements := [1]\<rparr>"

text \<open>The root element (node 5, without a parent element) and a bar in it (node 2)
  with \<open>data-sticky data-offset="70"\<close>; on \<open>root_sticky_page\<close> the root element
  carries \<open>data-sticky\<close> as well.\<close>

definition sticky_document :: document where
  "sticky_document = \<lparr>elements = [5, 2], body = 5\<rparr>"

definition sticky_page :: dom where
  "sticky_page = (\<lambda>n. blank)
     (2 := blank\<lparr>dataset := [''sticky'' \<mapsto> [], ''offset'' \<mapsto> ''70''],
                   parentElement := Some 5\<rparr>)"

definition root_sticky_page :: dom where
  "root_sticky_page = sticky_page(5 := blank\<lparr>dataset := [''sticky'' \<mapsto> []]\<rparr>)"

definition scrolled_to :: "real \<Rightarrow> manager \<Rightarrow> manager" where
  "scrolled_to y m = m\<lparr>state := (state m)\<lparr>scrollPosition := y\<rparr>\<rparr>"

text \<open>The manager and the document after \<open>initStickyElements\<close> on these pages.\<close>

definition sticky_started :: "manager \<times> dom" where
  "sticky_started = initStickyElements (sample_browser 0 0) sticky_document ScrollManager sticky_page"

definition root_sticky_started :: "manager \<times> dom" where
  "root_sticky_started =
     initStickyElements (sample_browser 0 0) sticky_document ScrollManager root_sticky_page"

text \<open>The body (node 0), the toggle (node 1) and the menu (node 2).\<close>

definition menu_document :: document where
  "menu_document = \<lparr>elements = [0, 1, 2], body = 0\<rparr>"

definition menu_page :: dom where
  "menu_page = (\<lambda>n. blank)
     (1 := blank\<lparr>classList := [''hamburger'']\<rparr>,
      2 := blank\<lparr>classList := [''nav-menu'']\<rparr>)"

text \<open>A contact form with one filled control and a submit button.\<close>

definition contact_page :: page where
  "contact_page =
     \<lparr>form = \<lparr>form_action = ''/contact'', form_method = ''post'',
               entries = [(''email'', ''a@b.c'')], defaults = [(''email'', [])],
               submitBtn = Some \<lparr>disabled = False, textContent = ''Send''\<rparr>\<rparr>,
      notifications = [], console = [], requests = [], defaultPrevented = False\<rparr>"

section \<open>The scroll state\<close>

lemma handleScroll_state:
  "state (fst (handleScroll B w m d)) =
     (state m)\<lparr>direction := (if getScrollPosition w > lastScrollTop (state m) then ''down''
                              else if getScrollPosition w < lastScrollTop (state m) then ''up''
                              else direction (state m)),
                scrollVelocity := getScrollPosition w - lastScrollTop (state m),
                lastScrollTop := getScrollPosition w,
                scrollPosition := getScrollPosition w,
                isAtTop := (getScrollPosition w \<le> 0),
                isAtBottom := (getScrollPosition w \<ge> maxScroll (state m) - innerHeight w),
                scrollPercent :=
                  js_mul (js_div (getScrollPosition w) (maxScroll (state m))) (Fin 100)\<rparr>"
  by (simp add: handleScroll_def getScrollPosition_def Let_def)

lemma handleScroll_direction:
  "direction (state (fst (handleScroll B w m d))) =
     (if getScrollPosition w > lastScrollTop (state m) then ''down''
      else if getScrollPosition w < lastScrollTop (state m) then ''up''
      else direction (state m))"
  by (simp add: handleScroll_state)

lemma handleScroll_velocity:
  "scrollVelocity (state (fst (handleScroll B w m d)))
     = getScrollPosition w - lastScrollTop (state m)"
  by (simp add: handleScroll_state)

lemma handleScroll_lastScrollTop:
  "lastScrollTop (state (fst (handleScroll B w m d))) = getScrollPosition w"
  by (simp add: handleScroll_state)

lemma handleScroll_collections:
  "parallaxElements (fst (handleScroll B w m d)) = parallaxElements m"
  "revealElements (fst (handleScroll B w m d)) = revealElements m"
  "scrollSpyTargets (fst (handleScroll B w m d)) = scrollSpyTargets m"
  "scrollSpyNavs (fst (handleScroll B w m d)) = scrollSpyNavs m"
  "hideOnScrollElements (fst (handleScroll B w m d)) = hideOnScrollElements m"
  "stickyElements (fst (handleScroll B w m d)) = stickyElements m"
  by (simp_all add: handleScroll_def Let_def)

lemma handleScroll_dom:
  "snd (snd (handleScroll B w m d))
     = snd (triggerScrollEffects B w (fst (handleScroll B w m d)) d)"
  by (simp add: handleScroll_def Let_def)

lemma initScrollEffects_state: "state (fst (initScrollEffects B doc m d)) = state m"
  by (simp add: initScrollEffects_def initParallax_def initScrollReveal_def initScrollSpy_def
      initHideOnScroll_def initStickyElements_def Let_def split_def)

lemma init_state:
  "state (fst (init B doc w m d)) = (state m)\<lparr>maxScroll := scrollHeight w - innerHeight w\<rparr>"
  by (simp add: init_def initScrollEffects_state updateScrollState_def)

text \<open>
  C3. After a scroll event handled with a positive \<open>maxScroll\<close> and a reported offset
  between 0 and \<open>maxScroll\<close>, \<open>scrollPercent\<close> is the finite number
  \<open>scrollPosition / maxScroll * 100\<close> (no infinity and no NaN, which a zero divisor
  would give), and it lies between 0 and 100. Numbers are the reals here, without the
  rounding of floating point.
\<close>

theorem handleScroll_scrollPercent:
  assumes "0 < maxScroll (state m)"
    and "0 \<le> getScrollPosition w"
    and "getScrollPosition w \<le> maxScroll (state m)"
  shows "scrollPosition (state (fst (handleScroll B w m d))) = getScrollPosition w
       \<and> maxScroll (state (fst (handleScroll B w m d))) = maxScroll (state m)
       \<and> scrollPercent (state (fst (handleScroll B w m d)))
           = Fin (scrollPosition (state (fst (handleScroll B w m d)))
                   / maxScroll (state (fst (handleScroll B w m d))) * 100)
       \<and> 0 \<le> scrollPosition (state (fst (handleScroll B w m d)))
                   / maxScroll (state (fst (handleScroll B w m d))) * 100
       \<and> scrollPosition (state (fst (handleScroll B w m d)))
                   / maxScroll (state (fst (handleScroll B w m d))) * 100 \<le> 100"
proof -
  let ?p = "getScrollPosition w" and ?M = "maxScroll (state m)"
  have nz: "?M \<noteq> 0" using assms(1) by simp
  have pct: "js_mul (js_div ?p ?M) (Fin 100) = Fin (?p / ?M * 100)"
    using nz by (simp add: js_div_def)
  have lo: "0 \<le> ?p / ?M * 100" using assms by simp
  have hi: "?p / ?M * 100 \<le> 100" using assms(1,3) by (simp add: field_simps)
  show ?thesis using pct lo hi by (simp add: handleScroll_state)
qed

theorem handleScroll_scrollPercent_witness:
  "maxScroll (state (updateScrollState (at_offset 0) ScrollManager)) = 1200
   \<and> getScrollPosition (at_offset 300) = 300
   \<and> scrollPercent (state (fst (handleScroll (sample_browser 0 0) (at_offset 300)
        (updateScrollState (at_offset 0) ScrollManager) plain_page))) = Fin 25"
  using handleScroll_scrollPercent[of "updateScrollState (at_offset 0) ScrollManager"
      "at_offset 300" "sample_browser 0 0" plain_page]
  by (simp add: updateScrollState_def ScrollManager_def getScrollPosition_def at_offset_def)

lemma trace_down:
  "sorted_wrt (<) (lastScrollTop (state m) # offsets ws) \<Longrightarrow>
   \<forall>m' \<in> set (trace (scroll_events ws) m). direction (state m') = ''down''"
proof (induction ws arbitrary: m)
  case Nil
  then show ?case by (simp add: scroll_events_def)
next
  case (Cons x ws)
  obtain B w d where x: "x = (B, w, d)" by (cases x)
  let ?m1 = "fst (handleScroll B w m d)"
  from Cons.prems x have lt: "lastScrollTop (state m) < getScrollPosition w"
    and rest: "sorted_wrt (<) (getScrollPosition w # offsets ws)"
    by (auto simp: offsets_def)
  have step: "direction (state ?m1) = ''down''"
    using lt by (simp add: handleScroll_direction)
  have "sorted_wrt (<) (lastScrollTop (state ?m1) # offsets ws)"
    using rest by (simp add: handleScroll_lastScrollTop)
  from Cons.IH[OF this] step x show ?case
    by (simp add: scroll_events_def)
qed

lemma trace_up:
  "sorted_wrt (>) (lastScrollTop (state m) # offsets ws) \<Longrightarrow>
   \<forall>m' \<in> set (trace (scroll_events ws) m). direction (state m') = ''up''"
proof (induction ws arbitrary: m)
  case Nil
  then show ?case by (simp add: scroll_events_def)
next
  case (Cons x ws)
  obtain B w d where x: "x = (B, w, d)" by (cases x)
  let ?m1 = "fst (handleScroll B w m d)"
  from Cons.prems x have gt: "getScrollPosition w < lastScrollTop (state m)"
    and rest: "sorted_wrt (>) (getScrollPosition w # offsets ws)"
    by (auto simp: offsets_def)
  have step: "direction (state ?m1) = ''up''"
    using gt by (simp add: handleScroll_direction)
  have "sorted_wrt (>) (lastScrollTop (state ?m1) # offsets ws)"
    using rest by (simp add: handleScroll_lastScrollTop)
  from Cons.IH[OF this] step x show ?case
    by (simp add: scroll_events_def)
qed

lemma trace_velocity:
  "map (\<lambda>m'. scrollVelocity (state m')) (trace (scroll_events ws) m)
     = deltas (lastScrollTop (state m)) (offsets ws)"
proof (induction ws arbitrary: m)
  case Nil
  then show ?case by (simp add: scroll_events_def offsets_def)
next
  case (Cons x ws)
  obtain B w d where x: "x = (B, w, d)" by (cases x)
  have "map (\<lambda>m'. scrollVelocity (state m'))
          (trace (scroll_events ws) (fst (handleScroll B w m d)))
          = deltas (getScrollPosition w) (offsets ws)"
    using Cons.IH[of "fst (handleScroll B w m d)"] by (simp add: handleScroll_lastScrollTop)
  then show ?case using x
    by (simp add: scroll_events_def offsets_def handleScroll_velocity)
qed

lemma two_scrolls_down:
  assumes "getScrollPosition w1 < getScrollPosition w2"
  shows "direction (state (fst (handleScroll B2 w2 (fst (handleScroll B1 w1 m d1)) d2))) = ''down''"
    and "scrollVelocity (state (fst (handleScroll B2 w2 (fst (handleScroll B1 w1 m d1)) d2)))
           = getScrollPosition w2 - getScrollPosition w1"
  using assms
  by (simp_all add: handleScroll_direction handleScroll_velocity handleScroll_lastScrollTop)

lemma two_scrolls_up:
  assumes "getScrollPosition w1 < getScrollPosition w2"
  shows "direction (state (fst (handleScroll B1 w1 (fst (handleScroll B2 w2 m d2)) d1))) = ''up''"
    and "scrollVelocity (state (fst (handleScroll B1 w1 (fst (handleScroll B2 w2 m d2)) d1)))
           = getScrollPosition w1 - getScrollPosition w2"
  using assms
  by (simp_all add: handleScroll_direction handleScroll_velocity handleScroll_lastScrollTop)

lemma trace_down_tl:
  "sorted_wrt (<) (offsets ws) \<Longrightarrow>
   \<forall>m' \<in> set (tl (trace (scroll_events ws) m)). direction (state m') = ''down''"
proof (cases ws)
  case Nil
  then show ?thesis by (simp add: scroll_events_def)
next
  case (Cons x ws')
  assume s: "sorted_wrt (<) (offsets ws)"
  obtain B w d where x: "x = (B, w, d)" by (cases x)
  let ?m1 = "fst (handleScroll B w m d)"
  have "sorted_wrt (<) (lastScrollTop (state ?m1) # offsets ws')"
    using s Cons x by (simp add: offsets_def handleScroll_lastScrollTop)
  then have "\<forall>m' \<in> set (trace (scroll_events ws') ?m1). direction (state m') = ''down''"
    by (rule trace_down)
  then show ?thesis using Cons x by (simp add: scroll_events_def)
qed

lemma trace_up_tl:
  "sorted_wrt (>) (offsets ws) \<Longrightarrow>
   \<forall>m' \<in> set (tl (trace (scroll_events ws) m)). direction (state m') = ''up''"
proof (cases ws)
  case Nil
  then show ?thesis by (simp add: scroll_events_def)
next
  case (Cons x ws')
  assume s: "sorted_wrt (>) (offsets ws)"
  obtain B w d where x: "x = (B, w, d)" by (cases x)
  let ?m1 = "fst (handleScroll B w m d)"
  have "sorted_wrt (>) (lastScrollTop (state ?m1) # offsets ws')"
    using s Cons x by (simp add: offsets_def handleScroll_lastScrollTop)
  then have "\<forall>m' \<in> set (trace (scroll_events ws') ?m1). direction (state m') = ''up''"
    by (rule trace_up)
  then show ?thesis using Cons x by (simp add: scroll_events_def)
qed

text \<open>
  C5, as amended. When the offset \<open>p1\<close> and then a larger offset \<open>p2\<close> are handled,
  the direction after the second event is \<open>down\<close> and the velocity is \<open>p2 - p1\<close>;
  in the reverse order the direction is \<open>up\<close> and the velocity \<open>p1 - p2\<close>. For any
  list of scroll events whose offsets are strictly increasing (decreasing), the
  direction is \<open>down\<close> (\<open>up\<close>) after each event but the first, and after the first
  as well when its offset is above (below) the last offset handled before the list.
  The velocity after an event is the offset minus the previous offset, and the
  direction follows its sign: after the first event of a list it is decided by the
  offset handled before the list, not by the list.
\<close>

theorem handleScroll_direction_of_delta:
  "(getScrollPosition w1 < getScrollPosition w2 \<longrightarrow>
      direction (state (fst (handleScroll B2 w2 (fst (handleScroll B1 w1 m d1)) d2))) = ''down''
      \<and> scrollVelocity (state (fst (handleScroll B2 w2 (fst (handleScroll B1 w1 m d1)) d2)))
          = getScrollPosition w2 - getScrollPosition w1
      \<and> direction (state (fst (handleScroll B1 w1 (fst (handleScroll B2 w2 m d2)) d1))) = ''up''
      \<and> scrollVelocity (state (fst (handleScroll B1 w1 (fst (handleScroll B2 w2 m d2)) d1)))
          = getScrollPosition w1 - getScrollPosition w2)
   \<and> (sorted_wrt (<) (offsets ws) \<longrightarrow>
      (\<forall>m' \<in> set (tl (trace (scroll_events ws) m)). direction (state m') = ''down''))
   \<and> (sorted_wrt (>) (offsets ws) \<longrightarrow>
      (\<forall>m' \<in> set (tl (trace (scroll_events ws) m)). direction (state m') = ''up''))
   \<and> (sorted_wrt (<) (lastScrollTop (state m) # offsets ws) \<longrightarrow>
      (\<forall>m' \<in> set (trace (scroll_events ws) m). direction (state m') = ''down''))
   \<and> (sorted_wrt (>) (lastScrollTop (state m) # offsets ws) \<longrightarrow>
      (\<forall>m' \<in> set (trace (scroll_events ws) m). direction (state m') = ''up''))
   \<and> map (\<lambda>m'. scrollVelocity (state m')) (trace (scroll_events ws) m)
        = deltas (lastScrollTop (state m)) (offsets ws)
   \<and> scrollVelocity (state (fst (handleScroll B w m d)))
        = getScrollPosition w - lastScrollTop (state m)
   \<and> direction (state (fst (handleScroll B w m d)))
        = (if scrollVelocity (state (fst (handleScroll B w m d))) > 0 then ''down''
           else if scrollVelocity (state (fst (handleScroll B w m d))) < 0 then ''up''
           else direction (state m))"
  using trace_down[of m ws] trace_up[of m ws] trace_velocity[of ws m]
    trace_down_tl[of ws m] trace_up_tl[of ws m]
    two_scrolls_down[of w1 w2 B2 B1 m d1 d2] two_scrolls_up[of w1 w2 B1 B2 m d2 d1]
  by (simp add: handleScroll_direction handleScroll_velocity)

theorem handleScroll_direction_of_delta_witness:
  "getScrollPosition (at_offset 100) < getScrollPosition (at_offset 250)
   \<and> map (\<lambda>m'. direction (state m'))
        (trace (scroll_events [(sample_browser 0 0, at_offset 100, plain_page),
                               (sample_browser 0 0, at_offset 250, plain_page)]) ScrollManager)
       = [''down'', ''down'']
   \<and> map (\<lambda>m'. scrollVelocity (state m'))
        (trace (scroll_events [(sample_browser 0 0, at_offset 100, plain_page),
                               (sample_browser 0 0, at_offset 250, plain_page)]) ScrollManager)
       = [100, 150]
   \<and> direction (state (fst (handleScroll (sample_browser 0 0) (at_offset 100)
        (fst (handleScroll (sample_browser 0 0) (at_offset 250) ScrollManager plain_page))
        plain_page))) = ''up''
   \<and> scrollVelocity (state (fst (handleScroll (sample_browser 0 0) (at_offset 100)
        (fst (handleScroll (sample_browser 0 0) (at_offset 250) ScrollManager plain_page))
        plain_page))) = - 150"
  using handleScroll_direction_of_delta[of "at_offset 100" "at_offset 250" "sample_browser 0 0"
      "sample_browser 0 0" ScrollManager plain_page plain_page
      "[(sample_browser 0 0, at_offset 100, plain_page),
        (sample_browser 0 0, at_offset 250, plain_page)]"]
  by (simp add: scroll_events_def offsets_def getScrollPosition_def at_offset_def
      ScrollManager_def)

text \<open>The direction after the first event of a list does not follow the list. The
  decreasing offsets 250, 100 handled by the manager as it is created (last offset 0)
  give \<open>down\<close> and then \<open>up\<close>; the increasing offsets 100, 250 handled after a
  scroll to 500 give \<open>up\<close> and then \<open>down\<close>.\<close>

theorem handleScroll_first_event_direction:
  "sorted_wrt (>) (offsets [(sample_browser 0 0, at_offset 250, plain_page),
                            (sample_browser 0 0, at_offset 100, plain_page)])
   \<and> map (\<lambda>m'. direction (state m'))
        (trace (scroll_events [(sample_browser 0 0, at_offset 250, plain_page),
                               (sample_browser 0 0, at_offset 100, plain_page)]) ScrollManager)
       = [''down'', ''up'']
   \<and> sorted_wrt (<) (offsets [(sample_browser 0 0, at_offset 100, plain_page),
                              (sample_browser 0 0, at_offset 250, plain_page)])
   \<and> map (\<lambda>m'. direction (state m'))
        (trace (scroll_events [(sample_browser 0 0, at_offset 100, plain_page),
                               (sample_browser 0 0, at_offset 250, plain_page)])
           (fst (handleScroll (sample_browser 0 0) (at_offset 500) ScrollManager plain_page)))
       = [''up'', ''down'']"
  by (simp add: scroll_events_def offsets_def handleScroll_direction handleScroll_lastScrollTop
      getScrollPosition_def at_offset_def ScrollManager_def)

lemma dispatch_direction:
  assumes "direction (state m) \<in> {''up'', ''down''}"
  shows "direction (state (dispatch e m)) \<in> {''up'', ''down''}"
proof (cases e)
  case (Init B doc w d)
  then show ?thesis using assms by (auto simp: init_state)
next
  case (Scroll B w d)
  then show ?thesis using assms by (auto simp: handleScroll_direction)
next
  case (Wheel deltaY)
  then show ?thesis using assms by (auto simp: handleWheel_def)
next
  case TouchMove
  then show ?thesis using assms by (auto simp: handleTouchMove_def)
next
  case TouchTimeout
  then show ?thesis using assms by (auto simp: touchTimeout_def)
next
  case (Resize w)
  then show ?thesis using assms by (auto simp: updateScrollState_def)
qed

lemma run_direction:
  "direction (state m) \<in> {''up'', ''down''} \<Longrightarrow>
   direction (state (fold dispatch es m)) \<in> {''up'', ''down''}"
proof (induction es arbitrary: m)
  case Nil
  then show ?case by simp
next
  case (Cons e es)
  from Cons.prems have "direction (state (dispatch e m)) \<in> {''up'', ''down''}"
    by (rule dispatch_direction)
  then show ?case using Cons.IH by simp
qed

text \<open>
  C10. The direction is \<open>down\<close> in the manager as it is created, and it is \<open>up\<close> or
  \<open>down\<close> after any list of events (init, scroll, wheel, touch move, the touch timer,
  resize). A scroll event whose offset equals the previous offset leaves the direction
  as it was and sets the velocity to 0.
\<close>

theorem direction_up_or_down:
  "direction (state ScrollManager) = ''down''
   \<and> direction (state (fold dispatch es ScrollManager)) \<in> {''up'', ''down''}
   \<and> (getScrollPosition w = lastScrollTop (state m) \<longrightarrow>
        direction (state (fst (handleScroll B w m d))) = direction (state m)
        \<and> scrollVelocity (state (fst (handleScroll B w m d))) = 0)"
proof -
  have a: "direction (state ScrollManager) = ''down''" by (simp add: ScrollManager_def)
  then have "direction (state ScrollManager) \<in> {''up'', ''down''}" by simp
  then have b: "direction (state (fold dispatch es ScrollManager)) \<in> {''up'', ''down''}"
    by (rule run_direction)
  show ?thesis using a b by (simp add: handleScroll_direction handleScroll_velocity)
qed

theorem direction_up_or_down_witness:
  "getScrollPosition (at_offset 0) = lastScrollTop (state (handleWheel (- 3) ScrollManager))
   \<and> direction (state (handleWheel (- 3) ScrollManager)) = ''up''
   \<and> direction (state (fst (handleScroll (sample_browser 0 0) (at_offset 0)
        (handleWheel (- 3) ScrollManager) plain_page))) = ''up''
   \<and> scrollVelocity (state (fst (handleScroll (sample_browser 0 0) (at_offset 0)
        (handleWheel (- 3) ScrollManager) plain_page))) = 0"
  using direction_up_or_down[of "[]" "at_offset 0" "handleWheel (- 3) ScrollManager"
      "sample_browser 0 0" plain_page]
  by (simp add: handleWheel_def ScrollManager_def getScrollPosition_def at_offset_def)

section \<open>Writes to the store\<close>

lemma classList_set_style [simp]: "classList (set_style el p v d n) = classList (d n)"
  by (simp add: set_style_def)

lemma style_set_style:
  "style (set_style el p v d n) q = (if n = el \<and> q = p then v else style (d n) q)"
  by (simp add: set_style_def)

lemma style_set_classList [simp]: "style (set_classList el f d n) = style (d n)"
  by (simp add: set_classList_def)

lemma classList_set_classList:
  "classList (set_classList el f d n) = (if n = el then f (classList (d el)) else classList (d n))"
  by (simp add: set_classList_def)

lemma dataset_set_style [simp]: "dataset (set_style el p v d n) = dataset (d n)"
  by (simp add: set_style_def)

lemma dataset_set_classList [simp]: "dataset (set_classList el f d n) = dataset (d n)"
  by (simp add: set_classList_def)

lemma parent_set_style [simp]: "parentElement (set_style el p v d n) = parentElement (d n)"
  by (simp add: set_style_def)

lemma parent_set_classList [simp]: "parentElement (set_classList el f d n) = parentElement (d n)"
  by (simp add: set_classList_def)

text \<open>Two facts about \<open>forEach\<close>: a property that every call of the callback keeps is
  kept by the loop, and an element that is not in the collection is not written when
  the callback writes only the element it is given.\<close>

lemma fold_preserves:
  assumes "\<And>x s. P s \<Longrightarrow> P (f x s)" and "P s"
  shows "P (fold f xs s)"
  using assms(2) by (induction xs arbitrary: s) (simp_all add: assms(1))

lemma fold_frame:
  assumes "\<And>x s. x \<noteq> n \<Longrightarrow> f x s n = s n" and "n \<notin> set xs"
  shows "fold f xs s n = s n"
  using assms(2)
proof (induction xs arbitrary: s)
  case Nil
  then show ?case by simp
next
  case (Cons x xs)
  then have "x \<noteq> n" and "n \<notin> set xs" by auto
  then show ?case using Cons.IH[of "f x s"] assms(1)[of x s] by simp
qed

section \<open>Scroll spy\<close>

lemma spy_target_miss:
  "\<forall>u \<in> set ts. \<not> spy_hit B d u \<Longrightarrow> fold (spy_target B d) ts a = a"
  by (induction ts arbitrary: a) (simp_all add: spy_target_def)

lemma spy_target_unique:
  assumes "t \<in> set ts" and "spy_hit B d t"
    and "\<forall>u \<in> set ts. spy_hit B d u \<longrightarrow> u = t"
  shows "fold (spy_target B d) ts a = Some (ident (d t))"
  using assms(1,3)
proof (induction ts arbitrary: a)
  case Nil
  then show ?case by simp
next
  case (Cons x ts)
  have rest: "\<forall>u \<in> set ts. spy_hit B d u \<longrightarrow> u = t"
    using Cons.prems(2) by (meson list.set_intros(2))
  show ?case
  proof (cases "t \<in> set ts")
    case True
    from Cons.IH[OF True rest]
    show ?thesis by simp
  next
    case False
    with Cons.prems(1) have xt: "x = t" by simp
    have "\<forall>u \<in> set ts. \<not> spy_hit B d u" using rest False by blast
    then have "fold (spy_target B d) ts (spy_target B d x a) = spy_target B d x a"
      by (rule spy_target_miss)
    moreover have "spy_target B d x a = Some (ident (d t))"
      unfolding xt using assms(2) by (simp add: spy_target_def)
    ultimately show ?thesis by simp
  qed
qed

lemma spy_nav_local: "spy_nav a nav d = d(nav := nav_mark a (d nav))"
  by (simp add: spy_nav_def nav_mark_def set_classList_def Let_def)

lemma nav_mark_idem: "nav_mark a (nav_mark a e) = nav_mark a e"
  by (simp add: nav_mark_def classList_add_def classList_remove_def)

lemma fold_spy_nav:
  "fold (spy_nav a) navs d n = (if n \<in> set navs then nav_mark a (d n) else d n)"
proof (induction navs arbitrary: d)
  case Nil
  then show ?case by simp
next
  case (Cons x navs)
  have "fold (spy_nav a) (x # navs) d n = fold (spy_nav a) navs (d(x := nav_mark a (d x))) n"
    by (simp add: spy_nav_local)
  also have "\<dots> = (if n \<in> set navs then nav_mark a ((d(x := nav_mark a (d x))) n)
                    else (d(x := nav_mark a (d x))) n)"
    by (rule Cons.IH)
  also have "\<dots> = (if n \<in> set (x # navs) then nav_mark a (d n) else d n)"
    by (simp add: nav_mark_idem)
  finally show ?case .
qed

lemma nav_mark_active:
  "(''active'' \<in> set (classList (nav_mark a e))) = (href e = Some (''#'' @ a))"
  by (simp add: nav_mark_def classList_add_def classList_remove_def)

lemma nav_mark_others:
  "removeAll ''active'' (classList (nav_mark a e)) = removeAll ''active'' (classList e)"
  by (simp add: nav_mark_def classList_add_def classList_remove_def)

lemma nav_mark_fields:
  "ident (nav_mark a e) = ident e" "href (nav_mark a e) = href e"
  "style (nav_mark a e) = style e" "dataset (nav_mark a e) = dataset e"
  "parentElement (nav_mark a e) = parentElement e"
  by (simp_all add: nav_mark_def)

lemma spy_hit_iff:
  "spy_hit B d u = (rect_top (getBoundingClientRect B d u) \<le> 70
                    \<and> 70 < rect_bottom (getBoundingClientRect B d u))"
  by (simp add: spy_hit_def scrollSpyOffset_def Let_def)

lemma updateScrollSpy_miss:
  "\<forall>u \<in> set (scrollSpyTargets m). \<not> spy_hit B d u \<Longrightarrow> updateScrollSpy B m d = d"
  by (simp add: updateScrollSpy_def spy_target_miss)

lemma updateScrollSpy_hit:
  assumes "t \<in> set (scrollSpyTargets m)" and "spy_hit B d t"
    and "\<forall>u \<in> set (scrollSpyTargets m). spy_hit B d u \<longrightarrow> u = t"
    and "ident (d t) \<noteq> []"
  shows "updateScrollSpy B m d n =
           (if n \<in> set (scrollSpyNavs m) then nav_mark (ident (d t)) (d n) else d n)"
proof -
  have "fold (spy_target B d) (scrollSpyTargets m) None = Some (ident (d t))"
    using assms(1,2,3) by (rule spy_target_unique)
  then show ?thesis using assms(4) by (simp add: updateScrollSpy_def fold_spy_nav)
qed

text \<open>
  C2, as amended. When the probe point at 70 lies in the box of exactly one section
  (top \<open>\<le> 70 <\<close> bottom) and that section has a non-empty id, \<open>updateScrollSpy\<close>
  leaves \<open>active\<close> on exactly the navigation links whose href is \<open>#\<close> followed by the
  id, changes no other class of a link and nothing else in the document; so exactly one
  link is active when exactly one link has that href. When the probe point lies in no
  section, no link changes between active and not active.
\<close>

theorem updateScrollSpy_marks_links:
  assumes "t \<in> set (scrollSpyTargets m)"
    and "rect_top (getBoundingClientRect B d t) \<le> 70"
    and "70 < rect_bottom (getBoundingClientRect B d t)"
    and "\<forall>u \<in> set (scrollSpyTargets m).
           rect_top (getBoundingClientRect B d u) \<le> 70
           \<and> 70 < rect_bottom (getBoundingClientRect B d u) \<longrightarrow> u = t"
    and "ident (d t) \<noteq> []"
  shows "(\<forall>n \<in> set (scrollSpyNavs m).
            (''active'' \<in> set (classList (updateScrollSpy B m d n)))
              = (href (d n) = Some (''#'' @ ident (d t)))
            \<and> removeAll ''active'' (classList (updateScrollSpy B m d n))
              = removeAll ''active'' (classList (d n)))
       \<and> (\<forall>n. n \<notin> set (scrollSpyNavs m) \<longrightarrow> updateScrollSpy B m d n = d n)
       \<and> ((\<exists>!n. n \<in> set (scrollSpyNavs m) \<and> href (d n) = Some (''#'' @ ident (d t))) \<longrightarrow>
            (\<exists>!n. n \<in> set (scrollSpyNavs m)
                   \<and> ''active'' \<in> set (classList (updateScrollSpy B m d n))))
       \<and> ((\<forall>u \<in> set (scrollSpyTargets m').
              \<not> (rect_top (getBoundingClientRect B d u) \<le> 70
                 \<and> 70 < rect_bottom (getBoundingClientRect B d u))) \<longrightarrow>
            (''active'' \<in> set (classList (updateScrollSpy B m' d n')))
              = (''active'' \<in> set (classList (d n'))))"
proof -
  have hit: "spy_hit B d t" using assms(2,3) by (simp add: spy_hit_iff)
  have uniq: "\<forall>u \<in> set (scrollSpyTargets m). spy_hit B d u \<longrightarrow> u = t"
    using assms(4) by (simp add: spy_hit_iff)
  have r: "\<And>n. updateScrollSpy B m d n =
           (if n \<in> set (scrollSpyNavs m) then nav_mark (ident (d t)) (d n) else d n)"
    using assms(1) hit uniq assms(5) by (rule updateScrollSpy_hit)
  have a: "\<forall>n \<in> set (scrollSpyNavs m).
            (''active'' \<in> set (classList (updateScrollSpy B m d n)))
              = (href (d n) = Some (''#'' @ ident (d t)))
            \<and> removeAll ''active'' (classList (updateScrollSpy B m d n))
              = removeAll ''active'' (classList (d n))"
    by (simp add: r nav_mark_active nav_mark_others)
  have b: "\<forall>n. n \<notin> set (scrollSpyNavs m) \<longrightarrow> updateScrollSpy B m d n = d n"
    by (simp add: r)
  have c: "(\<exists>!n. n \<in> set (scrollSpyNavs m) \<and> href (d n) = Some (''#'' @ ident (d t))) \<longrightarrow>
            (\<exists>!n. n \<in> set (scrollSpyNavs m)
                   \<and> ''active'' \<in> set (classList (updateScrollSpy B m d n)))"
    using a by metis
  have e: "(\<forall>u \<in> set (scrollSpyTargets m').
              \<not> (rect_top (getBoundingClientRect B d u) \<le> 70
                 \<and> 70 < rect_bottom (getBoundingClientRect B d u))) \<longrightarrow>
            (''active'' \<in> set (classList (updateScrollSpy B m' d n')))
              = (''active'' \<in> set (classList (d n')))"
  proof
    assume "\<forall>u \<in> set (scrollSpyTargets m').
              \<not> (rect_top (getBoundingClientRect B d u) \<le> 70
                 \<and> 70 < rect_bottom (getBoundingClientRect B d u))"
    then have "\<forall>u \<in> set (scrollSpyTargets m'). \<not> spy_hit B d u" by (simp add: spy_hit_iff)
    then have "updateScrollSpy B m' d = d" by (rule updateScrollSpy_miss)
    then show "(''active'' \<in> set (classList (updateScrollSpy B m' d n')))
              = (''active'' \<in> set (classList (d n')))" by simp
  qed
  show ?thesis using a b c e by blast
qed

text \<open>The section spans the rows 70 to 400: its link becomes the only active one, the
  link that was active is cleared.\<close>

theorem updateScrollSpy_marks_links_witness:
  "rect_top (getBoundingClientRect (sample_browser 70 400) spy_page 1) \<le> 70
   \<and> 70 < rect_bottom (getBoundingClientRect (sample_browser 70 400) spy_page 1)
   \<and> ''active'' \<in> set (classList (updateScrollSpy (sample_browser 70 400) (spy_manager [2, 3]) spy_page 2))
   \<and> ''active'' \<notin> set (classList (updateScrollSpy (sample_browser 70 400) (spy_manager [2, 3]) spy_page 3))
   \<and> classList (updateScrollSpy (sample_browser 70 400) (spy_manager [2, 3]) spy_page 3) = [''nav-link'']
   \<and> (\<exists>!n. n \<in> set (scrollSpyNavs (spy_manager [2, 3]))
          \<and> ''active'' \<in> set (classList (updateScrollSpy (sample_browser 70 400) (spy_manager [2, 3]) spy_page n)))"
proof -
  have ex1: "\<exists>!n. n \<in> set (scrollSpyNavs (spy_manager [2, 3]))
                \<and> href (spy_page n) = Some (''#'' @ ident (spy_page 1))"
  proof (rule ex1I[of _ 2])
    show "2 \<in> set (scrollSpyNavs (spy_manager [2, 3]))
          \<and> href (spy_page 2) = Some (''#'' @ ident (spy_page 1))"
      by (simp add: spy_manager_def spy_page_def blank_def)
  next
    fix n
    assume "n \<in> set (scrollSpyNavs (spy_manager [2, 3]))
            \<and> href (spy_page n) = Some (''#'' @ ident (spy_page 1))"
    then show "n = 2" by (auto simp: spy_manager_def spy_page_def blank_def)
  qed
  have pre: "1 \<in> set (scrollSpyTargets (spy_manager [2, 3]))"
    "rect_top (getBoundingClientRect (sample_browser 70 400) spy_page 1) \<le> 70"
    "70 < rect_bottom (getBoundingClientRect (sample_browser 70 400) spy_page 1)"
    "\<forall>u \<in> set (scrollSpyTargets (spy_manager [2, 3])).
        rect_top (getBoundingClientRect (sample_browser 70 400) spy_page u) \<le> 70
        \<and> 70 < rect_bottom (getBoundingClientRect (sample_browser 70 400) spy_page u) \<longrightarrow> u = 1"
    "ident (spy_page 1) \<noteq> []"
    by (simp_all add: spy_manager_def sample_browser_def spy_page_def blank_def)
  from updateScrollSpy_marks_links[OF pre, of "spy_manager [2, 3]" 0] ex1
  have main: "(\<forall>n \<in> set (scrollSpyNavs (spy_manager [2, 3])).
            (''active'' \<in> set (classList (updateScrollSpy (sample_browser 70 400) (spy_manager [2, 3]) spy_page n)))
              = (href (spy_page n) = Some (''#'' @ ident (spy_page 1)))
            \<and> removeAll ''active'' (classList (updateScrollSpy (sample_browser 70 400) (spy_manager [2, 3]) spy_page n))
              = removeAll ''active'' (classList (spy_page n)))"
    and one: "\<exists>!n. n \<in> set (scrollSpyNavs (spy_manager [2, 3]))
          \<and> ''active'' \<in> set (classList (updateScrollSpy (sample_browser 70 400) (spy_manager [2, 3]) spy_page n))"
    by blast+
  have l3: "classList (updateScrollSpy (sample_browser 70 400) (spy_manager [2, 3]) spy_page 3) = [''nav-link'']"
    by (simp add: updateScrollSpy_def sample_browser_def spy_manager_def spy_page_def
        spy_target_def spy_hit_def scrollSpyOffset_def spy_nav_def set_classList_def
        classList_add_def classList_remove_def blank_def ScrollManager_def Let_def)
  have l2: "''active'' \<in> set (classList (updateScrollSpy (sample_browser 70 400) (spy_manager [2, 3]) spy_page 2))"
    using main by (simp add: spy_manager_def spy_page_def blank_def)
  show ?thesis using pre(2,3) l2 l3 one by simp
qed

text \<open>The number of active links is not one when two links point to the section
  (node 2 and node 4, say one in the header and one in the footer): both are active.\<close>

theorem updateScrollSpy_two_links_active:
  "scrollSpyTargets (spy_manager [2, 3, 4]) = [1]
   \<and> rect_top (getBoundingClientRect (sample_browser 70 400) spy_page 1) \<le> 70
   \<and> 70 < rect_bottom (getBoundingClientRect (sample_browser 70 400) spy_page 1)
   \<and> ''active'' \<in> set (classList (updateScrollSpy (sample_browser 70 400) (spy_manager [2, 3, 4]) spy_page 2))
   \<and> ''active'' \<in> set (classList (updateScrollSpy (sample_browser 70 400) (spy_manager [2, 3, 4]) spy_page 4))
   \<and> \<not> (\<exists>!n. n \<in> set (scrollSpyNavs (spy_manager [2, 3, 4]))
            \<and> ''active'' \<in> set (classList (updateScrollSpy (sample_browser 70 400) (spy_manager [2, 3, 4]) spy_page n)))"
proof -
  have a2: "''active'' \<in> set (classList (updateScrollSpy (sample_browser 70 400) (spy_manager [2, 3, 4]) spy_page 2))"
    by (simp add: updateScrollSpy_def sample_browser_def spy_manager_def spy_page_def
        spy_target_def spy_hit_def scrollSpyOffset_def spy_nav_def set_classList_def
        classList_add_def classList_remove_def blank_def ScrollManager_def Let_def)
  have a4: "''active'' \<in> set (classList (updateScrollSpy (sample_browser 70 400) (spy_manager [2, 3, 4]) spy_page 4))"
    by (simp add: updateScrollSpy_def sample_browser_def spy_manager_def spy_page_def
        spy_target_def spy_hit_def scrollSpyOffset_def spy_nav_def set_classList_def
        classList_add_def classList_remove_def blank_def ScrollManager_def Let_def)
  have in2: "2 \<in> set (scrollSpyNavs (spy_manager [2, 3, 4]))"
    and in4: "4 \<in> set (scrollSpyNavs (spy_manager [2, 3, 4]))"
    by (simp_all add: spy_manager_def)
  have no: "\<not> (\<exists>!n. n \<in> set (scrollSpyNavs (spy_manager [2, 3, 4]))
            \<and> ''active'' \<in> set (classList (updateScrollSpy (sample_browser 70 400) (spy_manager [2, 3, 4]) spy_page n)))"
  proof
    assume "\<exists>!n. n \<in> set (scrollSpyNavs (spy_manager [2, 3, 4]))
            \<and> ''active'' \<in> set (classList (updateScrollSpy (sample_browser 70 400) (spy_manager [2, 3, 4]) spy_page n))"
    then have "(2::nat) = 4" using a2 a4 in2 in4 by blast
    then show False by simp
  qed
  have t: "scrollSpyTargets (spy_manager [2, 3, 4]) = [1]" by (simp add: spy_manager_def)
  have r: "rect_top (getBoundingClientRect (sample_browser 70 400) spy_page 1) \<le> 70"
    "70 < rect_bottom (getBoundingClientRect (sample_browser 70 400) spy_page 1)"
    by (simp_all add: sample_browser_def)
  show ?thesis using t r a2 a4 no by simp
qed

text \<open>
  C9. When the probe point at 70 lies in the box of no section, \<open>updateScrollSpy\<close>
  leaves the document as it is: the class list of every link is unchanged, and a link
  that was active remains active.
\<close>

theorem updateScrollSpy_outside_sections:
  assumes "\<forall>u \<in> set (scrollSpyTargets m).
             \<not> (rect_top (getBoundingClientRect B d u) \<le> 70
                \<and> 70 < rect_bottom (getBoundingClientRect B d u))"
  shows "updateScrollSpy B m d = d
       \<and> classList (updateScrollSpy B m d n) = classList (d n)
       \<and> (''active'' \<in> set (classList (d n)) \<longrightarrow>
            ''active'' \<in> set (classList (updateScrollSpy B m d n)))"
proof -
  have "\<forall>u \<in> set (scrollSpyTargets m). \<not> spy_hit B d u"
    using assms by (simp add: spy_hit_iff)
  then have "updateScrollSpy B m d = d" by (rule updateScrollSpy_miss)
  then show ?thesis by simp
qed

text \<open>The section spans the rows 500 to 900: the link that was active stays active.\<close>

theorem updateScrollSpy_outside_sections_witness:
  "\<not> (rect_top (getBoundingClientRect (sample_browser 500 900) spy_page 1) \<le> 70)
   \<and> ''active'' \<in> set (classList (spy_page 3))
   \<and> classList (updateScrollSpy (sample_browser 500 900) (spy_manager [2, 3]) spy_page 3)
       = [''nav-link'', ''active'']
   \<and> updateScrollSpy (sample_browser 500 900) (spy_manager [2, 3]) spy_page = spy_page"
  using updateScrollSpy_outside_sections[of "spy_manager [2, 3]" "sample_browser 500 900"
      spy_page 3]
  by (simp add: spy_manager_def sample_browser_def spy_page_def blank_def)

section \<open>Reveal on scroll\<close>

lemma reveal_each_revealed: "revealed (d n) \<Longrightarrow> revealed (reveal_each B w el d n)"
  by (simp add: reveal_each_def revealed_def Let_def style_set_style classList_set_classList
      classList_add_def)

lemma reveal_each_visible:
  assumes "rect_top (getBoundingClientRect B d el) < innerHeight w - innerHeight w * 0.15"
    and "rect_bottom (getBoundingClientRect B d el) > 0"
  shows "revealed (reveal_each B w el d el)"
  using assms
  by (simp add: reveal_each_def revealed_def Let_def style_set_style classList_set_classList
      classList_add_def revealThreshold_def)

lemma updateScrollReveal_revealed:
  "revealed (d n) \<Longrightarrow> revealed (updateScrollReveal B w m d n)"
  unfolding updateScrollReveal_def
  by (rule fold_preserves[where P = "\<lambda>s. revealed (s n)"]) (simp_all add: reveal_each_revealed)

text \<open>No effect removes the class \<open>revealed\<close>.\<close>

lemma updateParallax_class: "classList (updateParallax B w m d n) = classList (d n)"
  unfolding updateParallax_def
  by (rule fold_preserves[where P = "\<lambda>s. classList (s n) = classList (d n)"])
     (simp_all add: parallax_each_def Let_def)

lemma updateHideOnScroll_class: "classList (updateHideOnScroll m d n) = classList (d n)"
  unfolding updateHideOnScroll_def Let_def
  by (rule fold_preserves[where P = "\<lambda>s. classList (s n) = classList (d n)"])
     (simp_all add: hide_each_def)

lemma updateScrollReveal_class:
  "''revealed'' \<in> set (classList (d n)) \<Longrightarrow>
   ''revealed'' \<in> set (classList (updateScrollReveal B w m d n))"
  unfolding updateScrollReveal_def
  by (rule fold_preserves[where P = "\<lambda>s. ''revealed'' \<in> set (classList (s n))"])
     (simp_all add: reveal_each_def Let_def classList_set_classList classList_add_def)

lemma nav_mark_revealed_class:
  "(''revealed'' \<in> set (classList (nav_mark a e))) = (''revealed'' \<in> set (classList e))"
  by (simp add: nav_mark_def classList_add_def classList_remove_def)

lemma updateScrollSpy_class:
  "(''revealed'' \<in> set (classList (updateScrollSpy B m d n)))
     = (''revealed'' \<in> set (classList (d n)))"
  by (simp add: updateScrollSpy_def fold_spy_nav nav_mark_revealed_class split: option.split)

lemma updateScrollSpy_style: "style (updateScrollSpy B m d n) = style (d n)"
  by (simp add: updateScrollSpy_def fold_spy_nav nav_mark_fields split: option.split)

lemma sticky_each_class:
  "(''revealed'' \<in> set (classList (snd (sticky_each B m el d) n)))
     = (''revealed'' \<in> set (classList (d n)))"
  by (simp add: sticky_each_def Let_def classList_set_classList classList_add_def
      classList_remove_def split: option.split)

lemma sticky_each_style:
  "p \<notin> {''position'', ''top'', ''width'', ''zIndex''} \<Longrightarrow>
   style (snd (sticky_each B m el d) n) p = style (d n) p"
  by (simp add: sticky_each_def Let_def style_set_style split: option.split)

lemma sticky_forEach_keeps:
  assumes "\<And>el d. P (snd (sticky_each B m el d) n) = P (d n)"
  shows "P (snd (sticky_forEach B m els d) n) = P (d n)"
proof (induction els arbitrary: d)
  case Nil
  then show ?case by simp
next
  case (Cons el els)
  obtain r d1 where e: "sticky_each B m el d = (r, d1)" by (cases "sticky_each B m el d")
  have p1: "P (d1 n) = P (d n)" using assms[of el d] e by simp
  show ?case
  proof (cases r)
    case None
    then show ?thesis using e Cons.IH[of d1] p1 by simp
  next
    case (Some a)
    then show ?thesis using e p1 by simp
  qed
qed

lemma updateStickyElements_class:
  "(''revealed'' \<in> set (classList (snd (updateStickyElements B m d) n)))
     = (''revealed'' \<in> set (classList (d n)))"
  unfolding updateStickyElements_def
  by (rule sticky_forEach_keeps[where P = "\<lambda>e. ''revealed'' \<in> set (classList e)"])
     (rule sticky_each_class)

lemma updateStickyElements_style:
  assumes "p \<notin> {''position'', ''top'', ''width'', ''zIndex''}"
  shows "(style (snd (updateStickyElements B m d) n) p = v) = (style (d n) p = v)"
  unfolding updateStickyElements_def
  by (rule sticky_forEach_keeps[where P = "\<lambda>e. style e p = v"])
     (simp add: sticky_each_style[OF assms])

lemma updateParallax_frame:
  "n \<notin> set (parallaxElements m) \<Longrightarrow> updateParallax B w m d n = d n"
  unfolding updateParallax_def
  by (rule fold_frame) (simp_all add: parallax_each_def Let_def set_style_def)

lemma updateHideOnScroll_frame:
  "n \<notin> set (hideOnScrollElements m) \<Longrightarrow> updateHideOnScroll m d n = d n"
  unfolding updateHideOnScroll_def Let_def
  by (rule fold_frame) (simp_all add: hide_each_def set_style_def)

lemma triggerScrollEffects_class:
  assumes "''revealed'' \<in> set (classList (d n))"
  shows "''revealed'' \<in> set (classList (snd (triggerScrollEffects B w m d) n))"
proof -
  let ?d1 = "updateParallax B w m d"
  let ?d2 = "updateScrollReveal B w m ?d1"
  let ?d3 = "updateScrollSpy B m ?d2"
  let ?d4 = "updateHideOnScroll m ?d3"
  have "''revealed'' \<in> set (classList (?d1 n))" using assms by (simp add: updateParallax_class)
  then have "''revealed'' \<in> set (classList (?d2 n))" by (rule updateScrollReveal_class)
  then have "''revealed'' \<in> set (classList (?d3 n))" by (simp add: updateScrollSpy_class)
  then have "''revealed'' \<in> set (classList (?d4 n))" by (simp add: updateHideOnScroll_class)
  then show ?thesis by (simp add: triggerScrollEffects_def updateStickyElements_class)
qed

lemma triggerScrollEffects_revealed:
  assumes "revealed (d n)" and "n \<notin> set (parallaxElements m)"
    and "n \<notin> set (hideOnScrollElements m)"
  shows "revealed (snd (triggerScrollEffects B w m d) n)"
proof -
  let ?d1 = "updateParallax B w m d"
  let ?d2 = "updateScrollReveal B w m ?d1"
  let ?d3 = "updateScrollSpy B m ?d2"
  let ?d4 = "updateHideOnScroll m ?d3"
  have "revealed (?d1 n)" using assms(1,2) by (simp add: updateParallax_frame)
  then have "revealed (?d2 n)" by (rule updateScrollReveal_revealed)
  then have "revealed (?d3 n)"
    by (simp add: revealed_def updateScrollSpy_class updateScrollSpy_style)
  then have "revealed (?d4 n)" using assms(3) by (simp add: updateHideOnScroll_frame)
  then show ?thesis
    by (simp add: triggerScrollEffects_def revealed_def updateStickyElements_class
        updateStickyElements_style)
qed

lemma scroll_run_class:
  "''revealed'' \<in> set (classList (d n)) \<Longrightarrow>
   ''revealed'' \<in> set (classList (snd (scroll_run es m d) n))"
proof (induction es arbitrary: m d)
  case Nil
  then show ?case by simp
next
  case (Cons e es)
  obtain B w where e: "e = (B, w)" by (cases e)
  obtain m1 r d1 where h: "handleScroll B w m d = (m1, r, d1)"
    by (cases "handleScroll B w m d") auto
  have "d1 = snd (triggerScrollEffects B w m1 d)" using handleScroll_dom[of B w m d] h by simp
  then have "''revealed'' \<in> set (classList (d1 n))"
    using Cons.prems by (simp add: triggerScrollEffects_class)
  then have "''revealed'' \<in> set (classList (snd (scroll_run es m1 d1) n))" by (rule Cons.IH)
  then show ?case using e h by simp
qed

lemma scroll_run_revealed:
  "revealed (d n) \<Longrightarrow> n \<notin> set (parallaxElements m) \<Longrightarrow> n \<notin> set (hideOnScrollElements m) \<Longrightarrow>
   revealed (snd (scroll_run es m d) n)"
proof (induction es arbitrary: m d)
  case Nil
  then show ?case by simp
next
  case (Cons e es)
  obtain B w where e: "e = (B, w)" by (cases e)
  obtain m1 r d1 where h: "handleScroll B w m d = (m1, r, d1)"
    by (cases "handleScroll B w m d") auto
  have m1: "m1 = fst (handleScroll B w m d)" using h by simp
  have p: "n \<notin> set (parallaxElements m1)" and hd: "n \<notin> set (hideOnScrollElements m1)"
    using Cons.prems(2,3) by (simp_all add: m1 handleScroll_collections)
  have "d1 = snd (triggerScrollEffects B w m1 d)" using handleScroll_dom[of B w m d] h by simp
  then have "revealed (d1 n)"
    using Cons.prems(1) p hd by (simp add: triggerScrollEffects_revealed)
  then have "revealed (snd (scroll_run es m1 d1) n)" using p hd by (rule Cons.IH)
  then show ?case using e h by simp
qed

text \<open>
  C4, as amended. An element that \<open>updateScrollReveal\<close> has revealed (class
  \<open>revealed\<close>, opacity 1, transform \<open>translateY(0)\<close>, which is what the function sets
  on an element it finds visible) stays so through every later call of
  \<open>updateScrollReveal\<close>, whatever its visibility. Through any sequence of scroll events
  it keeps the class \<open>revealed\<close>; it keeps the opacity and the transform as well when
  it is not also a parallax element or a hide-on-scroll element.
\<close>

theorem reveal_is_kept:
  "(revealed (d n) \<longrightarrow> revealed (updateScrollReveal B w m d n))
   \<and> (''revealed'' \<in> set (classList (d n)) \<longrightarrow>
        ''revealed'' \<in> set (classList (snd (scroll_run es m d) n)))
   \<and> (revealed (d n) \<and> n \<notin> set (parallaxElements m) \<and> n \<notin> set (hideOnScrollElements m) \<longrightarrow>
        revealed (snd (scroll_run es m d) n))
   \<and> (rect_top (getBoundingClientRect B d n) < innerHeight w - innerHeight w * 0.15
        \<and> rect_bottom (getBoundingClientRect B d n) > 0 \<longrightarrow>
        revealed (reveal_each B w n d n))"
  using updateScrollReveal_revealed[of d n B w m] scroll_run_class[of d n es m]
    scroll_run_revealed[of d n m es] reveal_each_visible[of B d n w]
  by blast

text \<open>The bar of \<open>nav_page\<close> with the hide-on-scroll effect left out: revealed at the
  top of the page, and still revealed after a scroll to 200 and back to 0, where the
  browser reports it far above the viewport.\<close>

theorem reveal_is_kept_witness:
  "revealed (updateScrollReveal (sample_browser 0 60) (at_offset 0) nav_manager nav_page 1)
   \<and> 1 \<notin> set (parallaxElements (nav_manager\<lparr>hideOnScrollElements := []\<rparr>))
   \<and> 1 \<notin> set (hideOnScrollElements (nav_manager\<lparr>hideOnScrollElements := []\<rparr>))
   \<and> revealed (snd (scroll_run [(sample_browser (- 900) (- 840), at_offset 200),
                                 (sample_browser (- 900) (- 840), at_offset 0)]
        (nav_manager\<lparr>hideOnScrollElements := []\<rparr>)
        (updateScrollReveal (sample_browser 0 60) (at_offset 0) nav_manager nav_page)) 1)"
proof -
  have r: "revealed (updateScrollReveal (sample_browser 0 60) (at_offset 0) nav_manager nav_page 1)"
    by (simp add: updateScrollReveal_def reveal_each_def revealed_def nav_manager_def
        nav_page_def sample_browser_def at_offset_def ScrollManager_def blank_def
        revealThreshold_def Let_def set_style_def set_classList_def classList_add_def)
  have p: "1 \<notin> set (parallaxElements (nav_manager\<lparr>hideOnScrollElements := []\<rparr>))"
    and h: "1 \<notin> set (hideOnScrollElements (nav_manager\<lparr>hideOnScrollElements := []\<rparr>))"
    by (simp_all add: nav_manager_def ScrollManager_def)
  from reveal_is_kept[of "updateScrollReveal (sample_browser 0 60) (at_offset 0) nav_manager nav_page"
      1 "sample_browser 0 60" "at_offset 0" "nav_manager\<lparr>hideOnScrollElements := []\<rparr>"
      "[(sample_browser (- 900) (- 840), at_offset 200),
        (sample_browser (- 900) (- 840), at_offset 0)]"] r p h
  show ?thesis by blast
qed

text \<open>An element that is also hidden on scroll loses the revealed style: the bar of
  \<open>nav_page\<close> is revealed at the top of the page, and the scroll event at offset
  200 (downwards, past the threshold of 100) sets its opacity to 0 and moves it out,
  although the browser still reports it in the viewport.\<close>

theorem reveal_undone_by_hide_on_scroll:
  "revealed (updateScrollReveal (sample_browser 0 60) (at_offset 0) nav_manager nav_page 1)
   \<and> style (snd (snd (handleScroll (sample_browser 0 60) (at_offset 200) nav_manager
        (updateScrollReveal (sample_browser 0 60) (at_offset 0) nav_manager nav_page))) 1)
        ''opacity'' = ''0''
   \<and> style (snd (snd (handleScroll (sample_browser 0 60) (at_offset 200) nav_manager
        (updateScrollReveal (sample_browser 0 60) (at_offset 0) nav_manager nav_page))) 1)
        ''transform'' = ''translateY(-100%)''
   \<and> \<not> revealed (snd (snd (handleScroll (sample_browser 0 60) (at_offset 200) nav_manager
        (updateScrollReveal (sample_browser 0 60) (at_offset 0) nav_manager nav_page))) 1)"
proof -
  have r: "revealed (updateScrollReveal (sample_browser 0 60) (at_offset 0) nav_manager nav_page 1)"
    by (simp add: updateScrollReveal_def reveal_each_def revealed_def nav_manager_def
        nav_page_def sample_browser_def at_offset_def ScrollManager_def blank_def
        revealThreshold_def Let_def set_style_def set_classList_def classList_add_def)
  have o: "style (snd (snd (handleScroll (sample_browser 0 60) (at_offset 200) nav_manager
        (updateScrollReveal (sample_browser 0 60) (at_offset 0) nav_manager nav_page))) 1)
        ''opacity'' = ''0''"
    by (simp add: handleScroll_def triggerScrollEffects_def updateParallax_def
        updateScrollSpy_def updateHideOnScroll_def hide_each_def updateStickyElements_def
        hideNavbarThreshold_def updateScrollReveal_def reveal_each_def nav_manager_def
        nav_page_def sample_browser_def at_offset_def ScrollManager_def blank_def
        revealThreshold_def Let_def set_style_def set_classList_def classList_add_def)
  have t: "style (snd (snd (handleScroll (sample_browser 0 60) (at_offset 200) nav_manager
        (updateScrollReveal (sample_browser 0 60) (at_offset 0) nav_manager nav_page))) 1)
        ''transform'' = ''translateY(-100%)''"
    by (simp add: handleScroll_def triggerScrollEffects_def updateParallax_def
        updateScrollSpy_def updateHideOnScroll_def hide_each_def updateStickyElements_def
        hideNavbarThreshold_def updateScrollReveal_def reveal_each_def nav_manager_def
        nav_page_def sample_browser_def at_offset_def ScrollManager_def blank_def
        revealThreshold_def Let_def set_style_def set_classList_def classList_add_def)
  have n: "\<not> revealed (snd (snd (handleScroll (sample_browser 0 60) (at_offset 200) nav_manager
        (updateScrollReveal (sample_browser 0 60) (at_offset 0) nav_manager nav_page))) 1)"
    using o by (simp add: revealed_def)
  show ?thesis using r o t n by simp
qed

section \<open>Sticky elements\<close>

lemma sticky_each_dataset: "dataset (snd (sticky_each B m el d) n) = dataset (d n)"
  by (simp add: sticky_each_def Let_def split: option.split)

lemma sticky_each_parent: "parentElement (snd (sticky_each B m el d) n) = parentElement (d n)"
  by (simp add: sticky_each_def Let_def split: option.split)

lemma sticky_each_frame: "n \<noteq> el \<Longrightarrow> snd (sticky_each B m el d) n = d n"
  by (simp add: sticky_each_def Let_def set_style_def set_classList_def split: option.split)

lemma sticky_each_ok:
  assumes "sticky_cond B m (d el) \<longrightarrow> parentElement (d el) \<noteq> None"
  shows "fst (sticky_each B m el d) = None"
    and "sticky_post B m (d el) (snd (sticky_each B m el d) el)"
proof -
  show "fst (sticky_each B m el d) = None"
    using assms by (auto simp: sticky_each_def Let_def split: option.split)
  show "sticky_post B m (d el) (snd (sticky_each B m el d) el)"
    using assms
    by (auto simp: sticky_each_def sticky_post_def Let_def style_set_style
        classList_set_classList classList_add_def classList_remove_def split: option.split)
qed

lemma sticky_cond_dataset:
  "dataset e1 = dataset e2 \<Longrightarrow> sticky_cond B m e1 = sticky_cond B m e2"
  by (simp add: sticky_cond_def sticky_originalTop_def sticky_offset_number_def)

lemma sticky_post_dataset:
  "dataset e1 = dataset e2 \<Longrightarrow> sticky_post B m e1 e' = sticky_post B m e2 e'"
  by (simp add: sticky_post_def sticky_cond_dataset[of e1 e2] sticky_offset_px_def)

lemma sticky_forEach_ok:
  assumes "\<forall>el \<in> set els. sticky_cond B m (d el) \<longrightarrow> parentElement (d el) \<noteq> None"
  shows "fst (sticky_forEach B m els d) = None
       \<and> (\<forall>n. dataset (snd (sticky_forEach B m els d) n) = dataset (d n))
       \<and> (\<forall>n \<in> set els. sticky_post B m (d n) (snd (sticky_forEach B m els d) n))
       \<and> (\<forall>n. n \<notin> set els \<longrightarrow> snd (sticky_forEach B m els d) n = d n)"
  using assms
proof (induction els arbitrary: d)
  case Nil
  then show ?case by simp
next
  case (Cons el els)
  obtain r d1 where e: "sticky_each B m el d = (r, d1)" by (cases "sticky_each B m el d")
  have d1: "d1 = snd (sticky_each B m el d)" and r: "r = fst (sticky_each B m el d)"
    using e by simp_all
  have hd: "sticky_cond B m (d el) \<longrightarrow> parentElement (d el) \<noteq> None"
    using Cons.prems by simp
  have rN: "r = None" unfolding r using hd by (rule sticky_each_ok(1))
  have post: "sticky_post B m (d el) (d1 el)" unfolding d1 using hd by (rule sticky_each_ok(2))
  have ds: "\<And>n. dataset (d1 n) = dataset (d n)" by (simp add: d1 sticky_each_dataset)
  have ps: "\<And>n. parentElement (d1 n) = parentElement (d n)"
    by (simp add: d1 sticky_each_parent)
  have fr: "\<And>n. n \<noteq> el \<Longrightarrow> d1 n = d n" by (simp add: d1 sticky_each_frame)
  have pre: "\<forall>x \<in> set els. sticky_cond B m (d1 x) \<longrightarrow> parentElement (d1 x) \<noteq> None"
  proof
    fix x assume x: "x \<in> set els"
    have "sticky_cond B m (d1 x) = sticky_cond B m (d x)"
      by (rule sticky_cond_dataset) (rule ds)
    then show "sticky_cond B m (d1 x) \<longrightarrow> parentElement (d1 x) \<noteq> None"
      using Cons.prems x by (simp add: ps)
  qed
  let ?d' = "snd (sticky_forEach B m els d1)"
  from Cons.IH[OF pre]
  have i1: "fst (sticky_forEach B m els d1) = None"
    and i2: "\<And>n. dataset (?d' n) = dataset (d1 n)"
    and i3: "\<And>n. n \<in> set els \<Longrightarrow> sticky_post B m (d1 n) (?d' n)"
    and i4: "\<And>n. n \<notin> set els \<Longrightarrow> ?d' n = d1 n"
    by blast+
  have unf: "sticky_forEach B m (el # els) d = sticky_forEach B m els d1"
    using e rN by simp
  have c3: "\<forall>n \<in> set (el # els). sticky_post B m (d n) (?d' n)"
  proof
    fix n assume n: "n \<in> set (el # els)"
    show "sticky_post B m (d n) (?d' n)"
    proof (cases "n \<in> set els")
      case True
      have "sticky_post B m (d n) (?d' n) = sticky_post B m (d1 n) (?d' n)"
        by (rule sticky_post_dataset) (simp add: ds)
      then show ?thesis using i3[OF True] by simp
    next
      case False
      then have "n = el" using n by simp
      then show ?thesis using post i4[OF False] by simp
    qed
  qed
  have c4: "\<forall>n. n \<notin> set (el # els) \<longrightarrow> ?d' n = d n"
    using i4 fr by simp
  show ?case unfolding unf using i1 i2 ds c3 c4 by simp
qed

lemma sticky_init_each_frame: "n \<noteq> el \<Longrightarrow> sticky_init_each B el d n = d n"
  by (simp add: sticky_init_each_def set_dataset_def)

lemma sticky_init_each_at:
  "dataset (sticky_init_each B el d el) ''originalTop''
     = Some (ToString B (Fin (of_int (offsetTop B d el))))"
  by (simp add: sticky_init_each_def set_dataset_def)

lemma fold_sticky_init_nth:
  assumes "distinct els" and "i < length els"
  shows "dataset (fold (sticky_init_each B) els d (els ! i)) ''originalTop''
           = Some (ToString B (Fin (of_int
               (offsetTop B (fold (sticky_init_each B) (take i els) d) (els ! i)))))"
proof -
  let ?y = "els ! i" and ?d1 = "fold (sticky_init_each B) (take i els) d"
  have split: "els = take i els @ ?y # drop (Suc i) els"
    using assms(2) by (simp add: id_take_nth_drop)
  have notin: "?y \<notin> set (drop (Suc i) els)"
    using assms(1) split by (metis distinct.simps(2) distinct_append)
  have "fold (sticky_init_each B) els d
          = fold (sticky_init_each B) (drop (Suc i) els) (sticky_init_each B ?y ?d1)"
    by (subst split) simp
  then have "fold (sticky_init_each B) els d ?y = sticky_init_each B ?y ?d1 ?y"
    using fold_frame[of ?y "sticky_init_each B" "drop (Suc i) els" "sticky_init_each B ?y ?d1"]
      notin sticky_init_each_frame by simp
  then show ?thesis by (simp add: sticky_init_each_at)
qed

lemma distinct_querySelectorAll:
  "distinct (elements doc) \<Longrightarrow> distinct (querySelectorAll doc d k)"
  by (simp add: querySelectorAll_def)

lemma initStickyElements_captures:
  assumes "distinct (elements doc)" and "i < length (querySelectorAll doc d0 ''sticky'')"
  shows "stickyElements (fst (initStickyElements B doc m0 d0)) = querySelectorAll doc d0 ''sticky''"
    and "dataset (snd (initStickyElements B doc m0 d0) (querySelectorAll doc d0 ''sticky'' ! i))
           ''originalTop''
         = Some (ToString B (Fin (of_int
             (offsetTop B (fold (sticky_init_each B) (take i (querySelectorAll doc d0 ''sticky'')) d0)
                (querySelectorAll doc d0 ''sticky'' ! i)))))"
proof -
  show "stickyElements (fst (initStickyElements B doc m0 d0)) = querySelectorAll doc d0 ''sticky''"
    by (simp add: initStickyElements_def Let_def)
  have "distinct (querySelectorAll doc d0 ''sticky'')"
    using assms(1) by (rule distinct_querySelectorAll)
  from fold_sticky_init_nth[OF this assms(2), of B d0]
  show "dataset (snd (initStickyElements B doc m0 d0) (querySelectorAll doc d0 ''sticky'' ! i))
           ''originalTop''
         = Some (ToString B (Fin (of_int
             (offsetTop B (fold (sticky_init_each B) (take i (querySelectorAll doc d0 ''sticky'')) d0)
                (querySelectorAll doc d0 ''sticky'' ! i)))))"
    by (simp add: initStickyElements_def Let_def)
qed

lemma sticky_cond_numbers:
  "sticky_originalTop B e = Fin t \<Longrightarrow> sticky_offset_number B e = Fin off \<Longrightarrow>
   sticky_cond B m e = (t - off \<le> scrollPosition (state m))"
  by (simp add: sticky_cond_def)

lemma sticky_cond_nan:
  "sticky_originalTop B e = NaN \<or> sticky_offset_number B e = NaN \<Longrightarrow> \<not> sticky_cond B m e"
  by (cases "sticky_originalTop B e") (auto simp: sticky_cond_def)

text \<open>
  C6, as amended. Provided every sticky element that has reached its threshold has a
  parent element, \<open>updateStickyElements\<close> completes and leaves every sticky element
  in one of two states. When \<open>scrollPosition >= originalTop - offset\<close> holds in
  JavaScript's arithmetic (for numbers \<open>t\<close> and \<open>off\<close>: when
  \<open>t - off \<le> scrollPosition\<close>; never, when one of the two is not a number):
  position \<open>fixed\<close>, top the \<open>data-offset\<close> followed by \<open>px\<close> (\<open>0px\<close>
  without one) and the class \<open>sticky-active\<close>. Otherwise: position \<open>relative\<close>,
  top \<open>0\<close> and no class \<open>sticky-active\<close>. The update writes no data attribute;
  the original top it reads is the string that \<open>initStickyElements\<close> stored for
  each element of \<open>querySelectorAll('[data-sticky]')\<close>, from the \<open>offsetTop\<close>
  read when the loop reached the element.
\<close>

theorem updateStickyElements_switches:
  assumes "\<forall>el \<in> set (stickyElements m).
             sticky_cond B m (d el) \<longrightarrow> parentElement (d el) \<noteq> None"
  shows "fst (updateStickyElements B m d) = None
       \<and> (\<forall>el \<in> set (stickyElements m).
             if sticky_cond B m (d el)
             then style (snd (updateStickyElements B m d) el) ''position'' = ''fixed''
                  \<and> style (snd (updateStickyElements B m d) el) ''top'' = sticky_offset_px (d el)
                  \<and> ''sticky-active'' \<in> set (classList (snd (updateStickyElements B m d) el))
             else style (snd (updateStickyElements B m d) el) ''position'' = ''relative''
                  \<and> style (snd (updateStickyElements B m d) el) ''top'' = ''0''
                  \<and> ''sticky-active'' \<notin> set (classList (snd (updateStickyElements B m d) el)))
       \<and> (\<forall>el t off. sticky_originalTop B (d el) = Fin t \<and> sticky_offset_number B (d el) = Fin off
             \<longrightarrow> sticky_cond B m (d el) = (t - off \<le> scrollPosition (state m)))
       \<and> (\<forall>el. sticky_originalTop B (d el) = NaN \<or> sticky_offset_number B (d el) = NaN
             \<longrightarrow> \<not> sticky_cond B m (d el))
       \<and> (\<forall>n. dataset (snd (updateStickyElements B m d) n) = dataset (d n))
       \<and> (distinct (elements doc) \<and> i < length (querySelectorAll doc d0 ''sticky'') \<longrightarrow>
            stickyElements (fst (initStickyElements B doc m0 d0)) = querySelectorAll doc d0 ''sticky''
            \<and> dataset (snd (initStickyElements B doc m0 d0) (querySelectorAll doc d0 ''sticky'' ! i))
                 ''originalTop''
               = Some (ToString B (Fin (of_int
                   (offsetTop B
                      (fold (sticky_init_each B) (take i (querySelectorAll doc d0 ''sticky'')) d0)
                      (querySelectorAll doc d0 ''sticky'' ! i))))))"
proof -
  from sticky_forEach_ok[OF assms[unfolded updateStickyElements_def]]
  have a: "fst (updateStickyElements B m d) = None"
    and b: "\<And>n. dataset (snd (updateStickyElements B m d) n) = dataset (d n)"
    and c: "\<And>n. n \<in> set (stickyElements m) \<Longrightarrow>
               sticky_post B m (d n) (snd (updateStickyElements B m d) n)"
    unfolding updateStickyElements_def by blast+
  have c': "\<forall>el \<in> set (stickyElements m).
             if sticky_cond B m (d el)
             then style (snd (updateStickyElements B m d) el) ''position'' = ''fixed''
                  \<and> style (snd (updateStickyElements B m d) el) ''top'' = sticky_offset_px (d el)
                  \<and> ''sticky-active'' \<in> set (classList (snd (updateStickyElements B m d) el))
             else style (snd (updateStickyElements B m d) el) ''position'' = ''relative''
                  \<and> style (snd (updateStickyElements B m d) el) ''top'' = ''0''
                  \<and> ''sticky-active'' \<notin> set (classList (snd (updateStickyElements B m d) el))"
    using c unfolding sticky_post_def by blast
  have e: "\<forall>el t off. sticky_originalTop B (d el) = Fin t \<and> sticky_offset_number B (d el) = Fin off
             \<longrightarrow> sticky_cond B m (d el) = (t - off \<le> scrollPosition (state m))"
    using sticky_cond_numbers by blast
  have g: "\<forall>el. sticky_originalTop B (d el) = NaN \<or> sticky_offset_number B (d el) = NaN
             \<longrightarrow> \<not> sticky_cond B m (d el)"
    using sticky_cond_nan by blast
  have f: "distinct (elements doc) \<and> i < length (querySelectorAll doc d0 ''sticky'') \<longrightarrow>
            stickyElements (fst (initStickyElements B doc m0 d0)) = querySelectorAll doc d0 ''sticky''
            \<and> dataset (snd (initStickyElements B doc m0 d0) (querySelectorAll doc d0 ''sticky'' ! i))
                 ''originalTop''
               = Some (ToString B (Fin (of_int
                   (offsetTop B
                      (fold (sticky_init_each B) (take i (querySelectorAll doc d0 ''sticky'')) d0)
                      (querySelectorAll doc d0 ''sticky'' ! i)))))"
    using initStickyElements_captures[of doc i d0 B m0] by blast
  show ?thesis using a c' e g b f by blast
qed

lemma sticky_started_eval:
  "fst sticky_started = ScrollManager\<lparr>stickyElements := [2]\<rparr>"
  "snd sticky_started 2 =
     blank\<lparr>dataset := [''sticky'' \<mapsto> [], ''offset'' \<mapsto> ''70'', ''originalTop'' \<mapsto> ''120''],
           parentElement := Some 5\<rparr>"
  by (simp_all add: sticky_started_def initStickyElements_def querySelectorAll_def
      sticky_document_def sticky_page_def sticky_init_each_def set_dataset_def
      sample_browser_def blank_def Let_def)

lemma root_sticky_started_eval:
  "fst root_sticky_started = ScrollManager\<lparr>stickyElements := [5, 2]\<rparr>"
  "snd root_sticky_started 5 =
     blank\<lparr>dataset := [''sticky'' \<mapsto> [], ''originalTop'' \<mapsto> ''0'']\<rparr>"
  "snd root_sticky_started 2 =
     blank\<lparr>dataset := [''sticky'' \<mapsto> [], ''offset'' \<mapsto> ''70'', ''originalTop'' \<mapsto> ''120''],
           parentElement := Some 5\<rparr>"
  by (simp_all add: root_sticky_started_def initStickyElements_def querySelectorAll_def
      sticky_document_def root_sticky_page_def sticky_page_def sticky_init_each_def
      set_dataset_def sample_browser_def blank_def Let_def)

lemma sample_sticky_cond:
  "sticky_cond (sample_browser 0 0) (scrolled_to y m)
     (blank\<lparr>dataset := [''sticky'' \<mapsto> [], ''offset'' \<mapsto> ''70'', ''originalTop'' \<mapsto> ''120''],
            parentElement := Some 5\<rparr>) = (50 \<le> y)"
  by (simp add: sticky_cond_def sticky_originalTop_def sticky_offset_number_def
      sample_browser_def scrolled_to_def blank_def)

text \<open>The bar at original top 120 with \<open>data-offset="70"\<close>: fixed at \<open>70px\<close> at
  scroll position 500, back in the flow at scroll position 10.\<close>

theorem updateStickyElements_switches_witness:
  "stickyElements (fst sticky_started) = [2]
   \<and> dataset (snd sticky_started 2) ''originalTop'' = Some ''120''
   \<and> parentElement (snd sticky_started 2) = Some 5
   \<and> fst (updateStickyElements (sample_browser 0 0) (scrolled_to 500 (fst sticky_started))
        (snd sticky_started)) = None
   \<and> style (snd (updateStickyElements (sample_browser 0 0) (scrolled_to 500 (fst sticky_started))
        (snd sticky_started)) 2) ''position'' = ''fixed''
   \<and> style (snd (updateStickyElements (sample_browser 0 0) (scrolled_to 500 (fst sticky_started))
        (snd sticky_started)) 2) ''top'' = ''70px''
   \<and> ''sticky-active'' \<in> set (classList (snd (updateStickyElements (sample_browser 0 0)
        (scrolled_to 500 (fst sticky_started)) (snd sticky_started)) 2))
   \<and> style (snd (updateStickyElements (sample_browser 0 0) (scrolled_to 10 (fst sticky_started))
        (snd sticky_started)) 2) ''position'' = ''relative''
   \<and> style (snd (updateStickyElements (sample_browser 0 0) (scrolled_to 10 (fst sticky_started))
        (snd sticky_started)) 2) ''top'' = ''0''"
proof -
  let ?B = "sample_browser 0 0" and ?D = "snd sticky_started"
  have els: "\<And>y. stickyElements (scrolled_to y (fst sticky_started)) = [2]"
    by (simp add: scrolled_to_def sticky_started_eval)
  have cond: "\<And>y. sticky_cond ?B (scrolled_to y (fst sticky_started)) (?D 2) = (50 \<le> y)"
    by (simp add: sticky_started_eval sample_sticky_cond)
  have par: "parentElement (?D 2) = Some 5" by (simp add: sticky_started_eval blank_def)
  have pre: "\<And>y. \<forall>el \<in> set (stickyElements (scrolled_to y (fst sticky_started))).
               sticky_cond ?B (scrolled_to y (fst sticky_started)) (?D el)
               \<longrightarrow> parentElement (?D el) \<noteq> None"
    by (simp add: els par)
  have px: "sticky_offset_px (?D 2) = ''70px''"
    by (simp add: sticky_started_eval sticky_offset_px_def blank_def)
  note hi = updateStickyElements_switches[OF pre[of 500], of sticky_document 0 sticky_page ScrollManager]
  note lo = updateStickyElements_switches[OF pre[of 10], of sticky_document 0 sticky_page ScrollManager]
  have h: "fst (updateStickyElements ?B (scrolled_to 500 (fst sticky_started)) ?D) = None
     \<and> style (snd (updateStickyElements ?B (scrolled_to 500 (fst sticky_started)) ?D) 2) ''position'' = ''fixed''
     \<and> style (snd (updateStickyElements ?B (scrolled_to 500 (fst sticky_started)) ?D) 2) ''top'' = ''70px''
     \<and> ''sticky-active'' \<in> set (classList (snd (updateStickyElements ?B (scrolled_to 500 (fst sticky_started)) ?D) 2))"
    using hi by (simp add: els cond px)
  have l: "style (snd (updateStickyElements ?B (scrolled_to 10 (fst sticky_started)) ?D) 2) ''position'' = ''relative''
     \<and> style (snd (updateStickyElements ?B (scrolled_to 10 (fst sticky_started)) ?D) 2) ''top'' = ''0''"
    using lo by (simp add: els cond)
  have o: "dataset (?D 2) ''originalTop'' = Some ''120''" by (simp add: sticky_started_eval)
  show ?thesis using h l o par by (simp add: sticky_started_eval)
qed

text \<open>Without the proviso the update need not reach every element. On a page whose
  root element carries \<open>data-sticky\<close>, the root element has no parent element, the
  update throws on it once the scroll position has reached its top, and the bar after
  it in the collection, which has reached its threshold too, is never switched.\<close>

theorem updateStickyElements_root_throws:
  "stickyElements (fst root_sticky_started) = [5, 2]
   \<and> parentElement (snd root_sticky_started 5) = None
   \<and> sticky_cond (sample_browser 0 0) (scrolled_to 500 (fst root_sticky_started))
        (snd root_sticky_started 2)
   \<and> fst (updateStickyElements (sample_browser 0 0) (scrolled_to 500 (fst root_sticky_started))
        (snd root_sticky_started)) = Some TypeError
   \<and> style (snd (updateStickyElements (sample_browser 0 0) (scrolled_to 500 (fst root_sticky_started))
        (snd root_sticky_started)) 2) ''position'' = []
   \<and> ''sticky-active'' \<notin> set (classList (snd (updateStickyElements (sample_browser 0 0)
        (scrolled_to 500 (fst root_sticky_started)) (snd root_sticky_started)) 2))"
proof -
  let ?B = "sample_browser 0 0" and ?D = "snd root_sticky_started"
  let ?M = "scrolled_to 500 (fst root_sticky_started)"
  have els: "stickyElements ?M = [5, 2]"
    by (simp add: scrolled_to_def root_sticky_started_eval)
  have c1: "sticky_cond ?B ?M (?D 5)"
    by (simp add: root_sticky_started_eval sticky_cond_def sticky_originalTop_def
        sticky_offset_number_def sample_browser_def scrolled_to_def blank_def)
  have c2: "sticky_cond ?B ?M (?D 2)"
    by (simp add: root_sticky_started_eval sample_sticky_cond)
  have p1: "parentElement (?D 5) = None" by (simp add: root_sticky_started_eval blank_def)
  have e1: "fst (sticky_each ?B ?M 5 ?D) = Some TypeError"
    using c1 p1 by (simp add: sticky_each_def Let_def)
  have f1: "snd (sticky_each ?B ?M 5 ?D) 2 = ?D 2"
    by (rule sticky_each_frame) simp
  obtain r d1 where e: "sticky_each ?B ?M 5 ?D = (r, d1)" by (cases "sticky_each ?B ?M 5 ?D")
  have r: "r = Some TypeError" and d1: "d1 2 = ?D 2" using e e1 f1 by simp_all
  have u: "updateStickyElements ?B ?M ?D = (Some TypeError, d1)"
    by (simp add: updateStickyElements_def els e r)
  have s: "style (?D 2) ''position'' = []" "''sticky-active'' \<notin> set (classList (?D 2))"
    by (simp_all add: root_sticky_started_eval blank_def)
  show ?thesis using u d1 s c2 p1 by (simp add: root_sticky_started_eval)
qed

section \<open>Pages without marked elements\<close>

lemma querySelectorAll_none:
  "\<forall>n \<in> set (elements doc). dataset (d n) k = None \<Longrightarrow> querySelectorAll doc d k = []"
  by (simp add: querySelectorAll_def)

lemma triggerScrollEffects_empty:
  assumes "parallaxElements m = []" "revealElements m = []" "scrollSpyTargets m = []"
    "hideOnScrollElements m = []" "stickyElements m = []"
  shows "triggerScrollEffects B w m d = (None, d)"
  using assms
  by (simp add: triggerScrollEffects_def updateParallax_def updateScrollReveal_def
      updateScrollSpy_def updateHideOnScroll_def updateStickyElements_def)

lemma init_unmarked:
  assumes "\<forall>n \<in> set (elements doc). unmarked (d n)"
  shows "init B doc w m d =
           ((updateScrollState w m)\<lparr>parallaxElements := [], revealElements := [],
               scrollSpyTargets := [], scrollSpyNavs := [], hideOnScrollElements := [],
               stickyElements := []\<rparr>, d)"
proof -
  have q: "querySelectorAll doc d ''parallax'' = []" "querySelectorAll doc d ''reveal'' = []"
    "querySelectorAll doc d ''scrollSpy'' = []" "querySelectorAll doc d ''scrollNav'' = []"
    "querySelectorAll doc d ''hideOnScroll'' = []" "querySelectorAll doc d ''sticky'' = []"
    using assms by (simp_all add: querySelectorAll_none unmarked_def)
  show ?thesis
    by (simp add: init_def initScrollEffects_def initParallax_def initScrollReveal_def
        initScrollSpy_def initHideOnScroll_def initStickyElements_def q Let_def)
qed

text \<open>
  C8. Each of the five updates, run with an empty collection (for the scroll spy: no
  section, or no link), returns the document unchanged (the sticky update without a
  throw); so does \<open>triggerScrollEffects\<close> when all collections are empty. On a
  page where no element carries one of the attributes, \<open>init\<close> changes nothing and
  every later scroll event completes and leaves the document as it finds it.
  \<open>smoothScrollToElement\<close> with a null element requests no animation frame.
\<close>

theorem effects_skip_absent_elements:
  "(parallaxElements m = [] \<longrightarrow> updateParallax B w m d = d)
   \<and> (revealElements m = [] \<longrightarrow> updateScrollReveal B w m d = d)
   \<and> (scrollSpyTargets m = [] \<or> scrollSpyNavs m = [] \<longrightarrow> updateScrollSpy B m d = d)
   \<and> (hideOnScrollElements m = [] \<longrightarrow> updateHideOnScroll m d = d)
   \<and> (stickyElements m = [] \<longrightarrow> updateStickyElements B m d = (None, d))
   \<and> (parallaxElements m = [] \<and> revealElements m = [] \<and> scrollSpyTargets m = []
        \<and> hideOnScrollElements m = [] \<and> stickyElements m = [] \<longrightarrow>
        triggerScrollEffects B w m d = (None, d))
   \<and> smoothScrollToElement B w d None offset = None
   \<and> ((\<forall>n \<in> set (elements doc). unmarked (d n)) \<longrightarrow>
        snd (init B doc w m d) = d
        \<and> snd (handleScroll B' w' (fst (init B doc w m d)) d') = (None, d'))"
proof -
  have a: "parallaxElements m = [] \<longrightarrow> updateParallax B w m d = d"
    by (simp add: updateParallax_def)
  have b: "revealElements m = [] \<longrightarrow> updateScrollReveal B w m d = d"
    by (simp add: updateScrollReveal_def)
  have c: "scrollSpyTargets m = [] \<or> scrollSpyNavs m = [] \<longrightarrow> updateScrollSpy B m d = d"
    by (auto simp: updateScrollSpy_def split: option.split)
  have e: "hideOnScrollElements m = [] \<longrightarrow> updateHideOnScroll m d = d"
    by (simp add: updateHideOnScroll_def)
  have f: "stickyElements m = [] \<longrightarrow> updateStickyElements B m d = (None, d)"
    by (simp add: updateStickyElements_def)
  have g: "parallaxElements m = [] \<and> revealElements m = [] \<and> scrollSpyTargets m = []
        \<and> hideOnScrollElements m = [] \<and> stickyElements m = [] \<longrightarrow>
        triggerScrollEffects B w m d = (None, d)"
    by (simp add: triggerScrollEffects_empty)
  have h: "smoothScrollToElement B w d None offset = None"
    by (simp add: smoothScrollToElement_def)
  have i: "(\<forall>n \<in> set (elements doc). unmarked (d n)) \<longrightarrow>
        snd (init B doc w m d) = d
        \<and> snd (handleScroll B' w' (fst (init B doc w m d)) d') = (None, d')"
  proof
    assume u: "\<forall>n \<in> set (elements doc). unmarked (d n)"
    have "snd (handleScroll B' w' (fst (init B doc w m d)) d')
            = triggerScrollEffects B' w' (fst (handleScroll B' w' (fst (init B doc w m d)) d')) d'"
      by (simp add: handleScroll_def Let_def)
    also have "\<dots> = (None, d')"
      by (rule triggerScrollEffects_empty)
         (simp_all add: handleScroll_collections init_unmarked[OF u])
    finally show "snd (init B doc w m d) = d
        \<and> snd (handleScroll B' w' (fst (init B doc w m d)) d') = (None, d')"
      by (simp add: init_unmarked[OF u])
  qed
  show ?thesis using a b c e f g h i by blast
qed

text \<open>The menu page carries none of the attributes: \<open>init\<close> and a scroll event to
  offset 300 leave it as it is.\<close>

theorem effects_skip_absent_elements_witness:
  "unmarked (menu_page 0) \<and> unmarked (menu_page 1) \<and> unmarked (menu_page 2)
   \<and> stickyElements (fst (init (sample_browser 0 0) menu_document (at_offset 0) ScrollManager menu_page)) = []
   \<and> snd (init (sample_browser 0 0) menu_document (at_offset 0) ScrollManager menu_page) = menu_page
   \<and> snd (handleScroll (sample_browser 0 0) (at_offset 300)
        (fst (init (sample_browser 0 0) menu_document (at_offset 0) ScrollManager menu_page))
        menu_page) = (None, menu_page)
   \<and> smoothScrollToElement (sample_browser 0 0) (at_offset 0) menu_page None 70 = None"
proof -
  have u: "unmarked (menu_page 0)" "unmarked (menu_page 1)" "unmarked (menu_page 2)"
    by (simp_all add: unmarked_def menu_page_def blank_def)
  then have all: "\<forall>n \<in> set (elements menu_document). unmarked (menu_page n)"
    by (simp add: menu_document_def)
  from effects_skip_absent_elements[where m = ScrollManager and B = "sample_browser 0 0"
      and w = "at_offset 0" and d = menu_page and offset = 70 and doc = menu_document
      and B' = "sample_browser 0 0" and w' = "at_offset 300" and d' = menu_page] all
  have "snd (init (sample_browser 0 0) menu_document (at_offset 0) ScrollManager menu_page) = menu_page
      \<and> snd (handleScroll (sample_browser 0 0) (at_offset 300)
          (fst (init (sample_browser 0 0) menu_document (at_offset 0) ScrollManager menu_page))
          menu_page) = (None, menu_page)
      \<and> smoothScrollToElement (sample_browser 0 0) (at_offset 0) menu_page None 70 = None"
    by blast
  then show ?thesis using u by (simp add: init_unmarked[OF all])
qed

section \<open>The hamburger menu\<close>

lemma toggle_add:
  "c \<notin> set (classList (d el)) \<Longrightarrow>
   set_classList el (classList_toggle c) d = set_classList el (classList_add c) d"
  by (simp add: set_classList_def classList_toggle_def)

lemma toggle_remove:
  "c \<in> set (classList (d el)) \<Longrightarrow>
   set_classList el (classList_toggle c) d = set_classList el (classList_remove c) d"
  by (simp add: set_classList_def classList_toggle_def)

text \<open>
  C7. With the toggle and the menu two different elements, neither of class \<open>open\<close>,
  and no overflow set on the body: one click puts both in class \<open>open\<close> and sets the
  overflow of the body to \<open>hidden\<close>; a second click gives back the document as it was
  before the first.
\<close>

theorem burger_click_toggles:
  assumes "burger \<noteq> menu"
    and "''open'' \<notin> set (classList (d burger))"
    and "''open'' \<notin> set (classList (d menu))"
    and "style (d (body doc)) ''overflow'' = []"
  shows "''open'' \<in> set (classList (burger_click doc (burger, menu) d burger))
       \<and> ''open'' \<in> set (classList (burger_click doc (burger, menu) d menu))
       \<and> style (burger_click doc (burger, menu) d (body doc)) ''overflow'' = ''hidden''
       \<and> burger_click doc (burger, menu) (burger_click doc (burger, menu) d) = d"
proof -
  let ?d1 = "burger_click doc (burger, menu) d"
  let ?b1 = "set_classList burger (classList_add ''open'') d"
  have t1: "set_classList burger (classList_toggle ''open'') d = ?b1"
    using assms(2) by (rule toggle_add)
  have "''open'' \<notin> set (classList (?b1 menu))"
    using assms(1,3) by (simp add: classList_set_classList)
  then have t2: "set_classList menu (classList_toggle ''open'') ?b1
                  = set_classList menu (classList_add ''open'') ?b1"
    by (rule toggle_add)
  have one: "?d1 = set_style (body doc) ''overflow'' ''hidden''
                (set_classList menu (classList_add ''open'') ?b1)"
    unfolding burger_click_def Let_def fst_conv snd_conv t1 t2
    by (simp add: classList_contains_def classList_set_classList classList_add_def)
  have a: "''open'' \<in> set (classList (?d1 burger))"
    using assms(1) by (simp add: one classList_set_classList classList_add_def)
  have b: "''open'' \<in> set (classList (?d1 menu))"
    by (simp add: one classList_set_classList classList_add_def)
  have c: "style (?d1 (body doc)) ''overflow'' = ''hidden''"
    by (simp add: one style_set_style)
  let ?b2 = "set_classList burger (classList_remove ''open'') ?d1"
  have t3: "set_classList burger (classList_toggle ''open'') ?d1 = ?b2"
    using a by (rule toggle_remove)
  have "''open'' \<in> set (classList (?b2 menu))"
    using b assms(1) by (simp add: classList_set_classList)
  then have t4: "set_classList menu (classList_toggle ''open'') ?b2
                  = set_classList menu (classList_remove ''open'') ?b2"
    by (rule toggle_remove)
  have two: "burger_click doc (burger, menu) ?d1 =
               set_style (body doc) ''overflow'' []
                (set_classList menu (classList_remove ''open'') ?b2)"
    unfolding burger_click_def[of doc _ ?d1] Let_def fst_conv snd_conv t3 t4
    using assms(1,3)
    by (simp add: one classList_contains_def classList_set_classList classList_remove_def
        classList_add_def)
  have e: "burger_click doc (burger, menu) ?d1 = d"
  proof (rule ext)
    fix n
    show "burger_click doc (burger, menu) ?d1 n = d n"
      unfolding two unfolding one
      using assms
      by (cases "d n")
         (auto simp: set_style_def set_classList_def classList_add_def classList_remove_def
                     fun_upd_idem_iff)
  qed
  show ?thesis using a b c e by simp
qed

theorem burger_click_toggles_witness:
  "navbar_DOMContentLoaded menu_document menu_page = Some (1, 2)
   \<and> classList (burger_click menu_document (1, 2) menu_page 1) = [''hamburger'', ''open'']
   \<and> classList (burger_click menu_document (1, 2) menu_page 2) = [''nav-menu'', ''open'']
   \<and> style (burger_click menu_document (1, 2) menu_page (body menu_document)) ''overflow''
       = ''hidden''
   \<and> burger_click menu_document (1, 2) (burger_click menu_document (1, 2) menu_page) = menu_page"
proof -
  have pre: "(1::nat) \<noteq> 2" "''open'' \<notin> set (classList (menu_page 1))"
    "''open'' \<notin> set (classList (menu_page 2))"
    "style (menu_page (body menu_document)) ''overflow'' = []"
    by (simp_all add: menu_page_def menu_document_def blank_def)
  note t = burger_click_toggles[OF pre]
  have q: "navbar_DOMContentLoaded menu_document menu_page = Some (1, 2)"
    by (simp add: navbar_DOMContentLoaded_def querySelector_def menu_document_def
        menu_page_def blank_def)
  have c1: "classList (burger_click menu_document (1, 2) menu_page 1) = [''hamburger'', ''open'']"
    by (simp add: burger_click_def Let_def set_classList_def set_style_def classList_toggle_def
        classList_add_def classList_contains_def menu_page_def menu_document_def blank_def)
  have c2: "classList (burger_click menu_document (1, 2) menu_page 2) = [''nav-menu'', ''open'']"
    by (simp add: burger_click_def Let_def set_classList_def set_style_def classList_toggle_def
        classList_add_def classList_contains_def menu_page_def menu_document_def blank_def)
  show ?thesis using t q c1 c2 by simp
qed

section \<open>Form submission\<close>

lemma begin_with_button:
  assumes "submitBtn (form p) = Some b"
  shows "handleFormSubmit_begin p =
           (p\<lparr>defaultPrevented := True,
              form := (form p)\<lparr>submitBtn :=
                        Some \<lparr>disabled = True, textContent = ''Sending...''\<rparr>\<rparr>,
              requests := requests p @
                [\<lparr>url = form_action (form p), request_method = form_method (form p),
                  request_body = entries (form p)\<rparr>]\<rparr>,
            Some (textContent b))"
  using assms by (simp add: handleFormSubmit_begin_def Let_def)

lemma resume_button:
  assumes "submitBtn (form p) = Some b"
  shows "submitBtn (form (handleFormSubmit_resume t outcome p))
           = Some \<lparr>disabled = False, textContent = t\<rparr>"
  using assms
  by (cases outcome)
     (simp_all add: handleFormSubmit_resume_def showNotification_def form_reset_def Let_def)

lemma resume_notifications:
  "notifications (handleFormSubmit_resume t outcome p) = notifications p @ [toast outcome]"
  by (cases outcome)
     (simp_all add: handleFormSubmit_resume_def showNotification_def form_reset_def Let_def
        toast_def response_ok_def)

lemma resume_entries:
  "entries (form (handleFormSubmit_resume t outcome p))
     = (if outcome_ok outcome then defaults (form p) else entries (form p))"
  by (cases outcome)
     (simp_all add: handleFormSubmit_resume_def showNotification_def form_reset_def Let_def
        outcome_ok_def)

lemma toast_class:
  "(className (toast outcome) = ''notification notification--success'') = outcome_ok outcome"
  "(className (toast outcome) = ''notification notification--error'') = (\<not> outcome_ok outcome)"
  by (cases outcome; simp add: toast_def outcome_ok_def response_ok_def)+

text \<open>
  C1. For a form with a submit control: up to the request, \<open>handleFormSubmit\<close>
  prevents the default action, disables the control, labels it \<open>Sending...\<close> and
  issues one request with the form's action, method and data, showing nothing and
  leaving the entered values. When the request has settled, whatever the outcome and
  whatever has happened to the page meanwhile, the control is enabled and carries the
  label it had at the submission, and exactly one notification is added: the success
  notification when the response is ok (status 200 to 299), and then the form is
  reset; an error notification otherwise (error status, or a throw of fetch), and then
  the entered values are kept.
\<close>

theorem handleFormSubmit_restores_control:
  assumes "submitBtn (form p) = Some b"
  shows "submitBtn (form (fst (handleFormSubmit_begin p)))
           = Some \<lparr>disabled = True, textContent = ''Sending...''\<rparr>
       \<and> snd (handleFormSubmit_begin p) = Some (textContent b)
       \<and> defaultPrevented (fst (handleFormSubmit_begin p))
       \<and> requests (fst (handleFormSubmit_begin p))
           = requests p @ [\<lparr>url = form_action (form p), request_method = form_method (form p),
                              request_body = entries (form p)\<rparr>]
       \<and> notifications (fst (handleFormSubmit_begin p)) = notifications p
       \<and> entries (form (fst (handleFormSubmit_begin p))) = entries (form p)
       \<and> submitBtn (form (handleFormSubmit outcome p))
           = Some \<lparr>disabled = False, textContent = textContent b\<rparr>
       \<and> notifications (handleFormSubmit outcome p) = notifications p @ [toast outcome]
       \<and> (className (toast outcome) = ''notification notification--success'') = outcome_ok outcome
       \<and> (className (toast outcome) = ''notification notification--error'')
           = (\<not> outcome_ok outcome)
       \<and> entries (form (handleFormSubmit outcome p))
           = (if outcome_ok outcome then defaults (form p) else entries (form p))
       \<and> (submitBtn (form p') \<noteq> None \<longrightarrow>
            submitBtn (form (handleFormSubmit_resume (textContent b) outcome p'))
              = Some \<lparr>disabled = False, textContent = textContent b\<rparr>
            \<and> notifications (handleFormSubmit_resume (textContent b) outcome p')
              = notifications p' @ [toast outcome]
            \<and> entries (form (handleFormSubmit_resume (textContent b) outcome p'))
              = (if outcome_ok outcome then defaults (form p') else entries (form p')))"
proof -
  note bg = begin_with_button[OF assms]
  let ?p1 = "fst (handleFormSubmit_begin p)"
  have run: "handleFormSubmit outcome p = handleFormSubmit_resume (textContent b) outcome ?p1"
    by (simp add: handleFormSubmit_def bg)
  have btn1: "submitBtn (form ?p1) = Some \<lparr>disabled = True, textContent = ''Sending...''\<rparr>"
    by (simp add: bg)
  have a: "submitBtn (form (handleFormSubmit outcome p))
           = Some \<lparr>disabled = False, textContent = textContent b\<rparr>"
    unfolding run using btn1 by (rule resume_button)
  have n: "notifications (handleFormSubmit outcome p) = notifications p @ [toast outcome]"
    unfolding run by (simp add: resume_notifications bg)
  have e: "entries (form (handleFormSubmit outcome p))
           = (if outcome_ok outcome then defaults (form p) else entries (form p))"
    unfolding run by (simp add: resume_entries bg)
  have later: "submitBtn (form p') \<noteq> None \<longrightarrow>
            submitBtn (form (handleFormSubmit_resume (textContent b) outcome p'))
              = Some \<lparr>disabled = False, textContent = textContent b\<rparr>
            \<and> notifications (handleFormSubmit_resume (textContent b) outcome p')
              = notifications p' @ [toast outcome]
            \<and> entries (form (handleFormSubmit_resume (textContent b) outcome p'))
              = (if outcome_ok outcome then defaults (form p') else entries (form p'))"
    using resume_button[of p' _ "textContent b" outcome]
    by (auto simp: resume_notifications resume_entries)
  show ?thesis using a n e later toast_class[of outcome] by (simp add: bg)
qed

text \<open>The contact form with status 200 and with status 500.\<close>

theorem handleFormSubmit_restores_control_witness:
  "submitBtn (form contact_page) = Some \<lparr>disabled = False, textContent = ''Send''\<rparr>
   \<and> submitBtn (form (fst (handleFormSubmit_begin contact_page)))
       = Some \<lparr>disabled = True, textContent = ''Sending...''\<rparr>
   \<and> submitBtn (form (handleFormSubmit (Resolved 200) contact_page))
       = Some \<lparr>disabled = False, textContent = ''Send''\<rparr>
   \<and> map className (notifications (handleFormSubmit (Resolved 200) contact_page))
       = [''notification notification--success'']
   \<and> entries (form (handleFormSubmit (Resolved 200) contact_page)) = [(''email'', [])]
   \<and> submitBtn (form (handleFormSubmit (Resolved 500) contact_page))
       = Some \<lparr>disabled = False, textContent = ''Send''\<rparr>
   \<and> map className (notifications (handleFormSubmit (Resolved 500) contact_page))
       = [''notification notification--error'']
   \<and> entries (form (handleFormSubmit (Resolved 500) contact_page)) = [(''email'', ''a@b.c'')]"
proof -
  have b: "submitBtn (form contact_page) = Some \<lparr>disabled = False, textContent = ''Send''\<rparr>"
    by (simp add: contact_page_def)
  note ok = handleFormSubmit_restores_control[OF b, of "Resolved 200" contact_page]
  note ko = handleFormSubmit_restores_control[OF b, of "Resolved 500" contact_page]
  show ?thesis using ok ko
    by (simp add: contact_page_def toast_def outcome_ok_def response_ok_def)
qed


end
